theory Spec2Isabelle
  imports Main
begin

section \<open>Types and values of the reflected Go fragment\<close>

text \<open>
  The mapper works on \<^verbatim>\<open>reflect.Type\<close> and \<^verbatim>\<open>reflect.Value\<close>. The fragment of Go
  types covered here is: bool, int, uint8, string, named types, pointers, slices and
  structs whose fields are exported. A struct field carries its name, the value of its
  \<^verbatim>\<open>automapper\<close> tag (if the tag has that key), and whether it is embedded.
  Types are finite trees, so self-referential struct types are outside the fragment.
\<close>

datatype gtype =
    TBool | TInt | TUint8 | TString
  | TNamed string gtype
  | TPtr gtype
  | TSlice gtype
  | TStruct "field list"
and field = Field (Name: string) (Tag: "string option") (Anonymous: bool) (FType: gtype)

datatype kind = KInvalid | KBool | KInt | KUint8 | KString | KPtr | KSlice | KStruct

text \<open>
  Values are trees: a pointer is either nil or holds its pointee, a slice holds its
  elements (a nil slice and an empty slice are both \<open>VSlice []\<close>), a struct holds one
  value per field in declaration order. Source and destination are assumed not to share
  memory.
\<close>

datatype val =
    VBool bool | VInt int | VUint8 nat | VString string
  | VPtr "val option"
  | VSlice "val list"
  | VStruct "val list"

text \<open>A \<^verbatim>\<open>reflect.Value\<close>: the zero Value, or a value together with its type.\<close>

datatype Value = ZeroValue | Value gtype val

text \<open>
  Every panic of the program is a value. The first constructor is the mapper's own
  message, the next ones are the panics raised inside package reflect and by the
  runtime, \<open>NoMatchingDestField\<close> is "destination has no field that matches source
  field" of the second revision, \<open>ErrorMappingField\<close> is the message built by the
  deferred handlers of \<^verbatim>\<open>mapDestField\<close> and \<^verbatim>\<open>mapSourceField\<close> around the panic
  they recovered.
\<close>

datatype error =
    DestMustBePointer
  | NilDereference
  | ReflectZeroValue
  | ReflectWrongKind
  | ReflectNilEmbedded
  | ReflectNotConvertible
  | NoMatchingDestField
  | ErrorMappingField string error

fun rootCause :: "error \<Rightarrow> error" where
  "rootCause (ErrorMappingField n e) = rootCause e"
| "rootCause e = e"

record mapOptions =
  useSourceMemberList :: bool

section \<open>The operations of package reflect the mapper calls\<close>

fun underlying :: "gtype \<Rightarrow> gtype" where
  "underlying (TNamed n t) = underlying t"
| "underlying t = t"

fun Kind :: "gtype \<Rightarrow> kind" where
  "Kind TBool = KBool"
| "Kind TInt = KInt"
| "Kind TUint8 = KUint8"
| "Kind TString = KString"
| "Kind (TNamed n t) = Kind t"
| "Kind (TPtr t) = KPtr"
| "Kind (TSlice t) = KSlice"
| "Kind (TStruct fs) = KStruct"

text \<open>\<^verbatim>\<open>Type.Elem\<close>; every call in the mapper is on a pointer or slice type.\<close>

fun Elem :: "gtype \<Rightarrow> gtype" where
  "Elem (TNamed n t) = Elem t"
| "Elem (TPtr t) = t"
| "Elem (TSlice t) = t"
| "Elem t = t"

fun structFields :: "gtype \<Rightarrow> field list" where
  "structFields (TNamed n t) = structFields t"
| "structFields (TStruct fs) = fs"
| "structFields t = []"

definition NumField :: "gtype \<Rightarrow> nat" where
  "NumField t = length (structFields t)"

fun ValueKind :: "Value \<Rightarrow> kind" where
  "ValueKind ZeroValue = KInvalid"
| "ValueKind (Value t v) = Kind t"

text \<open>The zero value of a type, as \<^verbatim>\<open>reflect.New(t).Elem()\<close> and \<^verbatim>\<open>reflect.MakeSlice\<close> give it.\<close>

fun zero :: "gtype \<Rightarrow> val"
and zeroFields :: "field list \<Rightarrow> val list"
and zeroField :: "field \<Rightarrow> val" where
  "zero TBool = VBool False"
| "zero TInt = VInt 0"
| "zero TUint8 = VUint8 0"
| "zero TString = VString []"
| "zero (TNamed n t) = zero t"
| "zero (TPtr t) = VPtr None"
| "zero (TSlice t) = VSlice []"
| "zero (TStruct fs) = VStruct (zeroFields fs)"
| "zeroFields [] = []"
| "zeroFields (f # fs) = zeroField f # zeroFields fs"
| "zeroField (Field n tg a t) = zero t"

text \<open>\<^verbatim>\<open>valueIsNil\<close> of the source: a pointer kind whose value is nil.\<close>

fun valueIsNil :: "Value \<Rightarrow> bool" where
  "valueIsNil (Value t (VPtr None)) = (Kind t = KPtr)"
| "valueIsNil v = False"

text \<open>\<^verbatim>\<open>Value.Field(i)\<close>: panics unless the value is a struct with a field \<open>i\<close>.\<close>

fun fieldVal :: "val \<Rightarrow> nat \<Rightarrow> val" where
  "fieldVal (VStruct vs) i = (if i < length vs then vs ! i else VStruct [])"
| "fieldVal v i = v"

fun ValueField :: "Value \<Rightarrow> nat \<Rightarrow> error + Value" where
  "ValueField ZeroValue i = Inl ReflectWrongKind"
| "ValueField (Value t v) i =
     (if Kind t = KStruct \<and> i < NumField t
      then Inr (Value (FType (structFields t ! i)) (fieldVal v i))
      else Inl ReflectWrongKind)"

fun setField :: "val \<Rightarrow> nat \<Rightarrow> val \<Rightarrow> val" where
  "setField (VStruct vs) i x = VStruct (vs[i := x])"
| "setField v i x = v"


text \<open>\<^verbatim>\<open>Value.Elem\<close> of a pointer: the zero Value for nil, the pointee otherwise.\<close>

fun ValueElem :: "Value \<Rightarrow> Value" where
  "ValueElem (Value t (VPtr (Some x))) = Value (Elem t) x"
| "ValueElem v = ZeroValue"

subsection \<open>Field lookup by name\<close>

text \<open>
  \<^verbatim>\<open>Type.FieldByName\<close> returns a direct field of that name if there is one. Otherwise
  it searches the embedded structs breadth first: a level is the list of structs at one
  embedding depth, each with the index path that leads to it. A name found exactly once
  on a level is the answer, a name found more than once on the same level is ambiguous
  and counts as not found. An embedded pointer to a struct is searched like the struct.
\<close>

type_synonym level = "(nat list \<times> field list) list"

definition embeddedStruct :: "field \<Rightarrow> field list option" where
  "embeddedStruct f =
     (if Anonymous f
      then (let t = FType f; n = (if Kind t = KPtr then Elem t else t)
            in if Kind n = KStruct then Some (structFields n) else None)
      else None)"

definition levelMatches :: "string \<Rightarrow> level \<Rightarrow> (nat list \<times> field) list" where
  "levelMatches name lvl =
     concat (map (\<lambda>(p, fs). map (\<lambda>(i, f). (p @ [i], f))
                    (filter (\<lambda>(i, f). Name f = name) (enumerate 0 fs))) lvl)"

definition nextLevel :: "level \<Rightarrow> level" where
  "nextLevel lvl =
     concat (map (\<lambda>(p, fs). List.map_filter
                    (\<lambda>(i, f). case embeddedStruct f of None \<Rightarrow> None
                               | Some fs' \<Rightarrow> Some (p @ [i], fs'))
                    (enumerate 0 fs)) lvl)"

definition levelSize :: "level \<Rightarrow> nat" where
  "levelSize lvl = sum_list (map (\<lambda>(p, fs). Suc (size_list size fs)) lvl)"


lemma size_structFields: "Kind n = KStruct \<Longrightarrow> size_list size (structFields n) < size n"
  by (induction n) auto

lemma size_Elem: "Kind t = KPtr \<Longrightarrow> size (Elem t) < size t"
  by (induction t) auto

lemma embeddedStruct_size:
  assumes "embeddedStruct f = Some fs'"
  shows "Suc (size_list size fs') < size f"
proof (cases f)
  case (Field n tg a t)
  show ?thesis
  proof (cases "Kind t = KPtr")
    case True
    with assms Field have "Kind (Elem t) = KStruct" "fs' = structFields (Elem t)"
      by (auto simp: embeddedStruct_def Let_def split: if_splits)
    with size_structFields[of "Elem t"] size_Elem[OF True] Field show ?thesis by simp
  next
    case False
    with assms Field have "Kind t = KStruct" "fs' = structFields t"
      by (auto simp: embeddedStruct_def Let_def split: if_splits)
    with size_structFields[of t] Field show ?thesis by simp
  qed
qed

lemma map_filter_embedded_size:
  "levelSize (List.map_filter
      (\<lambda>(i, f). case embeddedStruct f of None \<Rightarrow> None | Some fs' \<Rightarrow> Some (q @ [i], fs'))
      (enumerate k fs)) \<le> size_list size fs"
proof (induction fs arbitrary: k)
  case Nil
  then show ?case by (simp add: levelSize_def)
next
  case (Cons f fs)
  show ?case using Cons[of "Suc k"] embeddedStruct_size[of f]
    by (cases "embeddedStruct f") (auto simp: levelSize_def)
qed

lemma levelSize_Cons: "levelSize ((p, fs) # lvl) = Suc (size_list size fs) + levelSize lvl"
  by (simp add: levelSize_def)

lemma levelSize_append: "levelSize (xs @ ys) = levelSize xs + levelSize ys"
  by (simp add: levelSize_def)

lemma levelSize_step: "levelSize (nextLevel [(p, fs)]) \<le> size_list size fs"
  using map_filter_embedded_size[of p 0 fs] by (simp add: nextLevel_def)

lemma nextLevel_Cons: "nextLevel ((p, fs) # lvl) = nextLevel [(p, fs)] @ nextLevel lvl"
  by (simp add: nextLevel_def)

lemma nextLevel_le: "levelSize (nextLevel lvl) \<le> levelSize lvl"
proof (induction lvl)
  case Nil
  then show ?case by (simp add: nextLevel_def)
next
  case (Cons a lvl)
  obtain p fs where a: "a = (p, fs)" by (cases a)
  show ?case using Cons levelSize_step[of p fs] nextLevel_Cons[of p fs lvl]
    by (simp add: levelSize_append a levelSize_Cons)
qed

lemma nextLevel_size: "lvl \<noteq> [] \<Longrightarrow> levelSize (nextLevel lvl) < levelSize lvl"
proof (cases lvl)
  case Nil
  then show "lvl \<noteq> [] \<Longrightarrow> ?thesis" by simp
next
  case (Cons a l)
  obtain p fs where a: "a = (p, fs)" by (cases a)
  show ?thesis using nextLevel_le[of l] levelSize_step[of p fs] nextLevel_Cons[of p fs l]
    by (simp add: Cons levelSize_append a levelSize_Cons)
qed

function fieldByNameFunc :: "string \<Rightarrow> level \<Rightarrow> (nat list \<times> field) option" where
  "fieldByNameFunc name lvl =
     (if lvl = [] then None
      else (case levelMatches name lvl of
              [] \<Rightarrow> fieldByNameFunc name (nextLevel lvl)
            | [m] \<Rightarrow> Some m
            | _ \<Rightarrow> None))"
  by pat_completeness auto
termination
  by (relation "measure (\<lambda>(name, lvl). levelSize lvl)") (auto simp: nextLevel_size)

declare fieldByNameFunc.simps [simp del]

text \<open>The index of the first direct field with the name (the quick check of \<^verbatim>\<open>FieldByName\<close>).\<close>

fun directField :: "string \<Rightarrow> nat \<Rightarrow> field list \<Rightarrow> (nat list \<times> field) option" where
  "directField name i [] = None"
| "directField name i (f # fs) =
     (if Name f = name then Some ([i], f) else directField name (Suc i) fs)"

definition TypeFieldByName :: "gtype \<Rightarrow> string \<Rightarrow> (nat list \<times> field) option" where
  "TypeFieldByName t name =
     (if name = [] then None
      else (case directField name 0 (structFields t) of
              Some r \<Rightarrow> Some r
            | None \<Rightarrow> fieldByNameFunc name (nextLevel [([], structFields t)])))"

text \<open>
  \<^verbatim>\<open>Value.FieldByIndex\<close>: from the second index on, a pointer to a struct is
  dereferenced first, and a nil pointer there panics.
\<close>

fun FieldByIndexLoop :: "bool \<Rightarrow> Value \<Rightarrow> nat list \<Rightarrow> error + Value" where
  "FieldByIndexLoop first v [] = Inr v"
| "FieldByIndexLoop first v (x # xs) =
     (if \<not> first \<and> ValueKind v = KPtr \<and> (case v of Value t u \<Rightarrow> Kind (Elem t) = KStruct | ZeroValue \<Rightarrow> False)
      then (if valueIsNil v then Inl ReflectNilEmbedded
            else (case ValueField (ValueElem v) x of
                    Inl e \<Rightarrow> Inl e
                  | Inr w \<Rightarrow> FieldByIndexLoop False w xs))
      else (case ValueField v x of
              Inl e \<Rightarrow> Inl e
            | Inr w \<Rightarrow> FieldByIndexLoop False w xs))"

definition FieldByIndex :: "Value \<Rightarrow> nat list \<Rightarrow> error + Value" where
  "FieldByIndex v index =
     (if ValueKind v = KStruct then FieldByIndexLoop True v index else Inl ReflectWrongKind)"

text \<open>\<^verbatim>\<open>Value.FieldByName\<close>: the zero Value when the type has no such field.\<close>

definition FieldByName :: "Value \<Rightarrow> string \<Rightarrow> error + Value" where
  "FieldByName v name =
     (case v of
        ZeroValue \<Rightarrow> Inl ReflectWrongKind
      | Value t u \<Rightarrow>
          if Kind t \<noteq> KStruct then Inl ReflectWrongKind
          else (case TypeFieldByName t name of
                  None \<Rightarrow> Inr ZeroValue
                | Some (index, f) \<Rightarrow> FieldByIndex v index))"

text \<open>
  A field Value obtained from an addressable struct refers to the struct's memory:
  what is set through it is stored at its index path, through the embedded pointers the
  path crosses.
\<close>

fun storeByIndex :: "val \<Rightarrow> nat list \<Rightarrow> val \<Rightarrow> val" where
  "storeByIndex v [] x = x"
| "storeByIndex (VStruct vs) (i # index) x = VStruct (vs[i := storeByIndex (fieldVal (VStruct vs) i) index x])"
| "storeByIndex (VPtr (Some u)) (i # index) x = VPtr (Some (storeByIndex u (i # index) x))"
| "storeByIndex v (i # index) x = v"

definition storeByName :: "gtype \<Rightarrow> val \<Rightarrow> string \<Rightarrow> val \<Rightarrow> val" where
  "storeByName t v name x =
     (case TypeFieldByName t name of
        None \<Rightarrow> v
      | Some (index, f) \<Rightarrow> storeByIndex v index x)"


subsection \<open>Sequences\<close>

text \<open>\<^verbatim>\<open>Value.Len\<close> and \<^verbatim>\<open>Value.Index\<close>: on a slice or a string (whose elements are its bytes).\<close>

fun Len :: "Value \<Rightarrow> error + nat" where
  "Len (Value t (VSlice xs)) = (if Kind t = KSlice then Inr (length xs) else Inl ReflectWrongKind)"
| "Len (Value t (VString cs)) = (if Kind t = KString then Inr (length cs) else Inl ReflectWrongKind)"
| "Len v = Inl ReflectWrongKind"

fun Index :: "Value \<Rightarrow> nat \<Rightarrow> error + Value" where
  "Index (Value t (VSlice xs)) j =
     (if Kind t = KSlice \<and> j < length xs then Inr (Value (Elem t) (xs ! j)) else Inl ReflectWrongKind)"
| "Index (Value t (VString cs)) j =
     (if Kind t = KString \<and> j < length cs then Inr (Value TUint8 (VUint8 (of_char (cs ! j))))
      else Inl ReflectWrongKind)"
| "Index v j = Inl ReflectWrongKind"

subsection \<open>Conversion\<close>

text \<open>
  \<^verbatim>\<open>string(rune)\<close>: the UTF-8 encoding of a valid code point, and of U+FFFD for
  every other integer.
\<close>

definition encodeRune :: "int \<Rightarrow> string" where
  "encodeRune r =
     (let bytes = map (\<lambda>b. char_of (nat b)) in
      if r < 0 \<or> 1114111 < r \<or> (55296 \<le> r \<and> r \<le> 57343) then bytes [239, 191, 189]
      else if r < 128 then bytes [r]
      else if r < 2048 then bytes [192 + r div 64, 128 + r mod 64]
      else if r < 65536 then bytes [224 + r div 4096, 128 + (r div 64) mod 64, 128 + r mod 64]
      else bytes [240 + r div 262144, 128 + (r div 4096) mod 64, 128 + (r div 64) mod 64,
                  128 + r mod 64])"

fun bytesOf :: "val list \<Rightarrow> string" where
  "bytesOf [] = []"
| "bytesOf (VUint8 b # vs) = char_of b # bytesOf vs"
| "bytesOf (v # vs) = bytesOf vs"

text \<open>
  \<^verbatim>\<open>Value.Convert\<close>, for the destination kinds the mapper reaches it with (never a
  pointer or a slice, and a struct only from a source that is neither a struct nor a
  pointer). \<open>None\<close> is the panic of a conversion Go does not have.
\<close>

definition Convert :: "gtype \<Rightarrow> val \<Rightarrow> gtype \<Rightarrow> val option" where
  "Convert sourceType v destType =
     (case (Kind destType, v) of
        (KBool, VBool b) \<Rightarrow> Some (VBool b)
      | (KInt, VInt x) \<Rightarrow> Some (VInt x)
      | (KInt, VUint8 b) \<Rightarrow> Some (VInt (int b))
      | (KUint8, VInt x) \<Rightarrow> Some (VUint8 (nat (x mod 256)))
      | (KUint8, VUint8 b) \<Rightarrow> Some (VUint8 b)
      | (KString, VInt x) \<Rightarrow> Some (VString (encodeRune x))
      | (KString, VUint8 b) \<Rightarrow> Some (VString (encodeRune (int b)))
      | (KString, VString cs) \<Rightarrow> Some (VString cs)
      | (KString, VSlice xs) \<Rightarrow>
          if Elem sourceType = TUint8 then Some (VString (bytesOf xs)) else None
      | _ \<Rightarrow> None)"

subsection \<open>Measures of a pair of source and destination\<close>

text \<open>
  \<open>psize\<close> counts the struct and slice layers of a type and ignores pointers and
  names: it goes down whenever the mapper moves to a field or an element, and stays
  when it dereferences.
\<close>

fun psize :: "gtype \<Rightarrow> nat"
and psizeFields :: "field list \<Rightarrow> nat"
and psizeField :: "field \<Rightarrow> nat" where
  "psize TBool = 0"
| "psize TInt = 0"
| "psize TUint8 = 0"
| "psize TString = 0"
| "psize (TNamed n t) = psize t"
| "psize (TPtr t) = psize t"
| "psize (TSlice t) = Suc (psize t)"
| "psize (TStruct fs) = Suc (psizeFields fs)"
| "psizeFields [] = 0"
| "psizeFields (f # fs) = psizeField f + psizeFields fs"
| "psizeField (Field n tg a t) = psize t"

fun sliceUnderPtrs :: "gtype \<Rightarrow> bool" where
  "sliceUnderPtrs (TNamed n t) = sliceUnderPtrs t"
| "sliceUnderPtrs (TPtr t) = sliceUnderPtrs t"
| "sliceUnderPtrs (TSlice t) = True"
| "sliceUnderPtrs t = False"

fun psizeV :: "Value \<Rightarrow> nat" where
  "psizeV ZeroValue = 0"
| "psizeV (Value t v) = psize t"

fun sizeV :: "Value \<Rightarrow> nat" where
  "sizeV ZeroValue = 0"
| "sizeV (Value t v) = size t"

fun emptySeq :: "Value \<Rightarrow> bool" where
  "emptySeq (Value t (VSlice [])) = True"
| "emptySeq (Value t (VString [])) = True"
| "emptySeq v = False"

fun probeBonus :: "Value \<Rightarrow> Value \<Rightarrow> nat" where
  "probeBonus s (Value t v) = (if emptySeq s \<and> sliceUnderPtrs t then 20 else 0)"
| "probeBonus s ZeroValue = 0"

fun NumFieldV :: "Value \<Rightarrow> nat" where
  "NumFieldV ZeroValue = 0"
| "NumFieldV (Value t v) = NumField t"

definition m1 :: "Value \<Rightarrow> Value \<Rightarrow> nat" where
  "m1 s d = psizeV s + psizeV d"

definition m2 :: "Value \<Rightarrow> Value \<Rightarrow> nat \<Rightarrow> nat" where
  "m2 s d rank = 10 * (sizeV s + sizeV d) + probeBonus s d + rank"

definition m3 :: "Value \<Rightarrow> Value \<Rightarrow> nat \<Rightarrow> nat" where
  "m3 s d i = NumFieldV s + NumFieldV d - i"


section \<open>The mapper\<close>

text \<open>
  The functions below are those of the last revision in \<^verbatim>\<open>automapper.go\<close>
  (\<^verbatim>\<open>MapToDestination\<close>, \<^verbatim>\<open>MapFromSource\<close>, \<^verbatim>\<open>MapFromSourceMap\<close>). The
  destination is mutated in place in Go; here every function returns the new value of
  the destination it was given, or the panic.
\<close>

definition valueIsContainedInNilEmbeddedType :: "Value \<Rightarrow> string \<Rightarrow> error + bool" where
  "valueIsContainedInNilEmbeddedType source fieldName =
     (case source of
        ZeroValue \<Rightarrow> Inl ReflectZeroValue
      | Value t u \<Rightarrow>
          if Kind t \<noteq> KStruct then Inl ReflectWrongKind
          else (let ix = (case TypeFieldByName t fieldName of None \<Rightarrow> [] | Some (index, f) \<Rightarrow> index)
                in if length ix > 1
                   then (case FieldByIndex source (butlast ix) of
                           Inl e \<Rightarrow> Inl e
                         | Inr parentField \<Rightarrow> Inr (valueIsNil parentField))
                   else Inr False))"

text \<open>
  The search loop of \<^verbatim>\<open>mapByFieldName\<close> over the fields \<open>is\<close> of the source that
  are still to visit: fields that are not of struct kind are passed over, the first
  struct field that has a field of the name ends the loop.
\<close>

fun searchNestedFields :: "Value \<Rightarrow> string \<Rightarrow> nat list \<Rightarrow> error + Value" where
  "searchNestedFields source name [] = Inr ZeroValue"
| "searchNestedFields source name (i # is) =
     (case ValueField source i of
        Inl e \<Rightarrow> Inl e
      | Inr fi \<Rightarrow>
          if ValueKind fi \<noteq> KStruct then searchNestedFields source name is
          else (case FieldByName fi name of
                  Inl e \<Rightarrow> Inl e
                | Inr sourceField \<Rightarrow>
                    if sourceField \<noteq> ZeroValue then Inr sourceField
                    else searchNestedFields source name is))"

text \<open>The deferred handler of the two field functions: a panic is raised again, wrapped.\<close>

fun recoverField :: "string \<Rightarrow> error + val \<Rightarrow> error + val" where
  "recoverField fieldName (Inl r) = Inl (ErrorMappingField fieldName r)"
| "recoverField fieldName (Inr v) = Inr v"

text \<open>The source of the first branch of \<^verbatim>\<open>mapValues\<close>: a nil pointer stands for a zero struct.\<close>

fun derefOrNew :: "gtype \<Rightarrow> val \<Rightarrow> Value" where
  "derefOrNew sourceType (VPtr (Some x)) = Value (Elem sourceType) x"
| "derefOrNew sourceType v = Value (Elem sourceType) (zero (Elem sourceType))"


subsection \<open>Facts about the measures\<close>

lemma psize_Elem_ptr: "Kind t = KPtr \<Longrightarrow> psize (Elem t) = psize t"
  by (induction t) auto

lemma sliceUnderPtrs_Elem_ptr: "Kind t = KPtr \<Longrightarrow> sliceUnderPtrs (Elem t) = sliceUnderPtrs t"
  by (induction t) auto

lemma psize_slice: "Kind t = KSlice \<Longrightarrow> psize t = Suc (psize (Elem t))"
  by (induction t) auto

lemma sliceUnderPtrs_slice: "Kind t = KSlice \<Longrightarrow> sliceUnderPtrs t"
  by (induction t) auto

lemma sliceUnderPtrs_struct: "Kind t = KStruct \<Longrightarrow> \<not> sliceUnderPtrs t"
  by (induction t) auto

lemma psize_struct: "Kind t = KStruct \<Longrightarrow> psize t = Suc (psizeFields (structFields t))"
  by (induction t) auto

lemma psizeFields_nth: "i < length fs \<Longrightarrow> psize (FType (fs ! i)) \<le> psizeFields fs"
proof (induction fs arbitrary: i)
  case Nil
  then show ?case by simp
next
  case (Cons f fs)
  show ?case
  proof (cases i)
    case 0
    then show ?thesis by (cases f) simp
  next
    case (Suc k)
    with Cons show ?thesis by (cases f) (simp add: le_SucI trans_le_add2)
  qed
qed

lemma psizeV_derefOrNew: "psizeV (derefOrNew t v) = psize (Elem t)"
  by (cases "(t, v)" rule: derefOrNew.cases) auto

lemma sizeV_derefOrNew: "sizeV (derefOrNew t v) = size (Elem t)"
  by (cases "(t, v)" rule: derefOrNew.cases) auto

lemma psizeV_ValueField: "ValueField v i = Inr w \<Longrightarrow> psizeV w < psizeV v"
  by (cases v) (auto simp: psize_struct NumField_def less_Suc_eq_le psizeFields_nth split: if_splits)

lemma psizeV_ValueElem: "ValueKind v = KPtr \<Longrightarrow> psizeV (ValueElem v) \<le> psizeV v"
  by (cases v rule: ValueElem.cases) (auto simp: psize_Elem_ptr)

lemma psizeV_FieldByIndexLoop:
  "FieldByIndexLoop first v index = Inr w \<Longrightarrow> index \<noteq> [] \<Longrightarrow> psizeV w < psizeV v"
proof (induction index arbitrary: first v)
  case Nil
  then show ?case by simp
next
  case (Cons x xs)
  let ?deref = "\<not> first \<and> ValueKind v = KPtr
      \<and> (case v of Value t u \<Rightarrow> Kind (Elem t) = KStruct | ZeroValue \<Rightarrow> False)"
  define v' where "v' = (if ?deref then ValueElem v else v)"
  have le: "?deref \<Longrightarrow> psizeV (ValueElem v) \<le> psizeV v"
    using psizeV_ValueElem[of v] by auto
  from Cons.prems obtain u where u: "ValueField v' x = Inr u" "FieldByIndexLoop False u xs = Inr w"
    and v': "psizeV v' \<le> psizeV v"
    using le by (auto simp: v'_def split: if_splits sum.splits)
  have "psizeV u < psizeV v" using psizeV_ValueField[OF u(1)] v' by simp
  moreover have "psizeV w \<le> psizeV u"
  proof (cases xs)
    case Nil
    with u(2) show ?thesis by simp
  next
    case (Cons y ys)
    then show ?thesis using Cons.IH[OF u(2)] by simp
  qed
  ultimately show ?case by simp
qed

lemma directField_index: "directField name i fs = Some (index, f) \<Longrightarrow> index \<noteq> []"
  by (induction fs arbitrary: i) (auto split: if_splits)

lemma levelMatches_index: "(index, f) \<in> set (levelMatches name lvl) \<Longrightarrow> index \<noteq> []"
  by (auto simp: levelMatches_def)

lemma fieldByNameFunc_index: "fieldByNameFunc name lvl = Some (index, f) \<Longrightarrow> index \<noteq> []"
proof (induction name lvl rule: fieldByNameFunc.induct)
  case (1 name lvl)
  show ?case
  proof (cases "levelMatches name lvl")
    case Nil
    with 1 show ?thesis by (auto simp: fieldByNameFunc.simps[of name lvl] split: if_splits)
  next
    case (Cons m ms)
    with "1.prems" have "ms = []" "m = (index, f)"
      by (auto simp: fieldByNameFunc.simps[of name lvl] split: if_splits list.splits)
    with Cons levelMatches_index[of index f name lvl] show ?thesis by simp
  qed
qed

lemma TypeFieldByName_index: "TypeFieldByName t name = Some (index, f) \<Longrightarrow> index \<noteq> []"
  by (auto simp: TypeFieldByName_def directField_index fieldByNameFunc_index
           split: if_splits option.splits)

lemma psizeV_FieldByName: "FieldByName v name = Inr w \<Longrightarrow> psizeV w < psizeV v"
proof (cases v)
  case ZeroValue
  then show "FieldByName v name = Inr w \<Longrightarrow> ?thesis" by (simp add: FieldByName_def)
next
  case (Value t u)
  assume a: "FieldByName v name = Inr w"
  with Value have k: "Kind t = KStruct" by (auto simp: FieldByName_def split: if_splits)
  show ?thesis
  proof (cases "TypeFieldByName t name")
    case None
    with a Value k show ?thesis by (simp add: FieldByName_def psize_struct)
  next
    case (Some r)
    obtain index f where r: "r = (index, f)" by (cases r)
    from a Value k Some r have "FieldByIndexLoop True v index = Inr w"
      by (simp add: FieldByName_def FieldByIndex_def)
    then show ?thesis
      using psizeV_FieldByIndexLoop TypeFieldByName_index Some r by blast
  qed
qed

lemma psizeV_searchNestedFields:
  "searchNestedFields source name is = Inr w \<Longrightarrow> psizeV w \<le> psizeV source"
proof (induction "is")
  case Nil
  then show ?case by simp
next
  case (Cons i "is")
  then show ?case
    using psizeV_ValueField psizeV_FieldByName
    by (fastforce split: sum.splits if_splits)
qed

lemma psizeV_Index: "Index s j = Inr w \<Longrightarrow> psizeV w \<le> psizeV s"
  by (cases "(s, j)" rule: Index.cases) (auto simp: psize_slice split: if_splits)

lemma emptySeq_Len: "Len s = Inr 0 \<Longrightarrow> emptySeq s"
  by (cases s rule: Len.cases) (auto split: if_splits)

function mapValues :: "mapOptions \<Rightarrow> Value \<Rightarrow> Value \<Rightarrow> error + val"
and mapSlice :: "mapOptions \<Rightarrow> Value \<Rightarrow> Value \<Rightarrow> error + val"
and mapSliceLoop :: "mapOptions \<Rightarrow> Value \<Rightarrow> gtype \<Rightarrow> nat \<Rightarrow> nat \<Rightarrow> val list \<Rightarrow> error + val list"
and verifyArrayTypesAreCompatible :: "mapOptions \<Rightarrow> Value \<Rightarrow> Value \<Rightarrow> error + unit"
and mapFields :: "mapOptions \<Rightarrow> Value \<Rightarrow> Value \<Rightarrow> error + val"
and mapSourceFieldsLoop :: "mapOptions \<Rightarrow> Value \<Rightarrow> Value \<Rightarrow> nat \<Rightarrow> error + val"
and mapDestFieldsLoop :: "mapOptions \<Rightarrow> Value \<Rightarrow> Value \<Rightarrow> nat \<Rightarrow> error + val"
and mapDestField :: "mapOptions \<Rightarrow> Value \<Rightarrow> Value \<Rightarrow> nat \<Rightarrow> error + val"
and mapSourceField :: "mapOptions \<Rightarrow> Value \<Rightarrow> Value \<Rightarrow> nat \<Rightarrow> error + val"
and mapByFieldName :: "mapOptions \<Rightarrow> Value \<Rightarrow> Value \<Rightarrow> string \<Rightarrow> string \<Rightarrow> error + val"
where
  "mapValues opts sourceVal destVal =
     (case sourceVal of
        ZeroValue \<Rightarrow> Inl ReflectZeroValue
      | Value sourceType sv \<Rightarrow>
     (case destVal of
        ZeroValue \<Rightarrow> Inl ReflectZeroValue
      | Value destType dv \<Rightarrow>
          if Kind destType = KStruct \<and> Kind sourceType = KPtr then
            mapValues opts (derefOrNew sourceType sv) (Value destType dv)
          else if destType = sourceType then Inr sv
          else if Kind destType = KStruct \<and> Kind sourceType = KStruct then
            mapFields opts (Value sourceType sv) (Value destType dv)
          else if Kind destType = KPtr then
            (if valueIsNil (Value sourceType sv) then Inr dv
             else (case mapValues opts (Value sourceType sv)
                          (Value (Elem destType) (zero (Elem destType))) of
                     Inl e \<Rightarrow> Inl e
                   | Inr val \<Rightarrow> Inr (VPtr (Some val))))
          else if Kind destType = KSlice then
            mapSlice opts (Value sourceType sv) (Value destType dv)
          else (case Convert sourceType sv destType of
                  None \<Rightarrow> Inl ReflectNotConvertible
                | Some c \<Rightarrow> Inr c)))"
| "mapSlice opts sourceVal destVal =
     (case destVal of
        ZeroValue \<Rightarrow> Inl ReflectZeroValue
      | Value destType dv \<Rightarrow>
     (case Len sourceVal of
        Inl e \<Rightarrow> Inl e
      | Inr len \<Rightarrow>
          if Kind destType \<noteq> KSlice then Inl ReflectWrongKind
          else (case mapSliceLoop opts sourceVal destType 0 len
                       (replicate len (zero (Elem destType))) of
                  Inl e \<Rightarrow> Inl e
                | Inr target \<Rightarrow>
                    if len = 0 then
                      (case verifyArrayTypesAreCompatible opts sourceVal (Value destType dv) of
                         Inl e \<Rightarrow> Inl e
                       | Inr u \<Rightarrow> Inr (VSlice target))
                    else Inr (VSlice target))))"
| "mapSliceLoop opts sourceVal destType j len target =
     (if j < len then
        (case Index sourceVal j of
           Inl e \<Rightarrow> Inl e
         | Inr sj \<Rightarrow>
             (case mapValues opts sj (Value (Elem destType) (zero (Elem destType))) of
                Inl e \<Rightarrow> Inl e
              | Inr val \<Rightarrow> mapSliceLoop opts sourceVal destType (Suc j) len (target[j := val])))
      else Inr target)"
| "verifyArrayTypesAreCompatible opts sourceVal destVal =
     (case destVal of
        ZeroValue \<Rightarrow> Inl ReflectZeroValue
      | Value destType dv \<Rightarrow>
     (case sourceVal of
        ZeroValue \<Rightarrow> Inl ReflectZeroValue
      | Value sourceType sv \<Rightarrow>
          if Kind sourceType \<noteq> KSlice then Inl ReflectWrongKind
          else (case mapValues opts (Value sourceType (VSlice [zero (Elem sourceType)]))
                       (Value (TPtr destType) (VPtr None)) of
                  Inl e \<Rightarrow> Inl e
                | Inr x \<Rightarrow> Inr ())))"
| "mapFields opts sourceVal destVal =
     (if useSourceMemberList opts then mapSourceFieldsLoop opts sourceVal destVal 0
      else mapDestFieldsLoop opts sourceVal destVal 0)"
| "mapSourceFieldsLoop opts sourceVal destVal i =
     (case destVal of
        ZeroValue \<Rightarrow> Inl ReflectZeroValue
      | Value destType dv \<Rightarrow>
          if ValueKind sourceVal \<noteq> KStruct then Inl ReflectWrongKind
          else if i < NumFieldV sourceVal then
            (case mapSourceField opts sourceVal (Value destType dv) i of
               Inl e \<Rightarrow> Inl e
             | Inr dv' \<Rightarrow> mapSourceFieldsLoop opts sourceVal (Value destType dv') (Suc i))
          else Inr dv)"
| "mapDestFieldsLoop opts sourceVal destVal i =
     (case destVal of
        ZeroValue \<Rightarrow> Inl ReflectZeroValue
      | Value destType dv \<Rightarrow>
          if Kind destType \<noteq> KStruct then Inl ReflectWrongKind
          else if i < NumField destType then
            (case mapDestField opts sourceVal (Value destType dv) i of
               Inl e \<Rightarrow> Inl e
             | Inr dv' \<Rightarrow> mapDestFieldsLoop opts sourceVal (Value destType dv') (Suc i))
          else Inr dv)"
| "mapDestField opts source destVal i =
     (case destVal of
        ZeroValue \<Rightarrow> Inl ReflectZeroValue
      | Value destType dv \<Rightarrow>
          if \<not> (Kind destType = KStruct \<and> i < NumField destType) then Inl ReflectWrongKind
          else (let destTypeField = structFields destType ! i;
                    destFieldName = Name destTypeField;
                    sourceFieldName = (case Tag destTypeField of
                                         None \<Rightarrow> destFieldName
                                       | Some automapperTag \<Rightarrow> automapperTag)
                in if Tag destTypeField = Some ''-'' then Inr dv
                   else recoverField destFieldName
                     (if Anonymous destTypeField then
                        (case ValueField (Value destType dv) i of
                           Inl e \<Rightarrow> Inl e
                         | Inr destField \<Rightarrow>
                             (case mapValues opts source destField of
                                Inl e \<Rightarrow> Inl e
                              | Inr x \<Rightarrow> Inr (setField dv i x)))
                      else mapByFieldName opts source (Value destType dv)
                             sourceFieldName destFieldName)))"
| "mapSourceField opts source destVal i =
     (case source of
        ZeroValue \<Rightarrow> Inl ReflectZeroValue
      | Value sourceType sv \<Rightarrow>
          if \<not> (Kind sourceType = KStruct \<and> i < NumField sourceType) then Inl ReflectWrongKind
          else (let sourceTypeField = structFields sourceType ! i;
                    sourceFieldName = Name sourceTypeField;
                    destFieldName = (case Tag sourceTypeField of
                                       None \<Rightarrow> sourceFieldName
                                     | Some automapperTag \<Rightarrow> automapperTag)
                in if Tag sourceTypeField = Some ''-''
                   then (case destVal of ZeroValue \<Rightarrow> Inl ReflectZeroValue | Value destType dv \<Rightarrow> Inr dv)
                   else recoverField sourceFieldName
                     (if Anonymous sourceTypeField then
                        (case ValueField (Value sourceType sv) i of
                           Inl e \<Rightarrow> Inl e
                         | Inr sourceField \<Rightarrow> mapValues opts sourceField destVal)
                      else mapByFieldName opts (Value sourceType sv) destVal
                             sourceFieldName destFieldName)))"
| "mapByFieldName opts source destVal sourceFieldName destFieldName =
     (case destVal of
        ZeroValue \<Rightarrow> Inl ReflectWrongKind
      | Value destType dv \<Rightarrow>
     (case FieldByName (Value destType dv) destFieldName of
        Inl e \<Rightarrow> Inl e
      | Inr destField \<Rightarrow>
     (case valueIsContainedInNilEmbeddedType source sourceFieldName of
        Inl e \<Rightarrow> Inl e
      | Inr nilEmbedded \<Rightarrow>
          if nilEmbedded then Inr dv
          else
     (case FieldByName source sourceFieldName of
        Inl e \<Rightarrow> Inl e
      | Inr sourceField \<Rightarrow>
          if sourceField = ZeroValue then
            (if ValueKind destField = KStruct then
               (case mapValues opts source destField of
                  Inl e \<Rightarrow> Inl e
                | Inr x \<Rightarrow> Inr (storeByName destType dv destFieldName x))
             else (case searchNestedFields source sourceFieldName [0 ..< NumFieldV source] of
                     Inl e \<Rightarrow> Inl e
                   | Inr nested \<Rightarrow>
                       (case mapValues opts nested destField of
                          Inl e \<Rightarrow> Inl e
                        | Inr x \<Rightarrow> Inr (storeByName destType dv destFieldName x))))
          else (case mapValues opts sourceField destField of
                  Inl e \<Rightarrow> Inl e
                | Inr x \<Rightarrow> Inr (storeByName destType dv destFieldName x))))))"
  by pat_completeness auto
termination
proof (relation "inv_image (less_than <*lex*> less_than <*lex*> less_than)
    (case_sum
      (case_sum
        (case_sum (\<lambda>(opts, s, d). (m1 s d, m2 s d 5, 0))
                  (\<lambda>(opts, s, d). (m1 s d, m2 s d 4, 0)))
        (case_sum (\<lambda>(opts, s, t, j, len, target). (psizeV s + Suc (psize (Elem t)), 0, len - j))
          (case_sum (\<lambda>(opts, s, d). (m1 s d, 10 * (sizeV s + sizeV d) + 23, 0))
                    (\<lambda>(opts, s, d). (m1 s d, m2 s d 4, 0)))))
      (case_sum
        (case_sum (\<lambda>(opts, s, d, i). (m1 s d, m2 s d 3, m3 s d i))
                  (\<lambda>(opts, s, d, i). (m1 s d, m2 s d 3, m3 s d i)))
        (case_sum (\<lambda>(opts, s, d, i). (m1 s d, m2 s d 2, 0))
          (case_sum (\<lambda>(opts, s, d, i). (m1 s d, m2 s d 2, 0))
                    (\<lambda>(opts, s, d, sn, dn). (m1 s d, m2 s d 1, 0))))))",
    goal_cases)
  case 1
  show ?case by (intro wf_inv_image wf_lex_prod wf_less_than)
next
  case 2
  then show ?case
    by (simp add: m1_def m2_def psizeV_derefOrNew sizeV_derefOrNew psize_Elem_ptr size_Elem
                  sliceUnderPtrs_struct)
next
  case 3
  then show ?case by (simp add: m1_def m2_def)
next
  case 4
  then show ?case
    by (simp add: m1_def m2_def psize_Elem_ptr size_Elem sliceUnderPtrs_Elem_ptr)
next
  case 5
  then show ?case by (simp add: m1_def m2_def)
next
  case 6
  then show ?case by (simp add: m1_def m2_def psize_slice)
next
  case 7
  then show ?case by (simp add: m1_def m2_def emptySeq_Len sliceUnderPtrs_slice)
next
  case 8
  then show ?case using psizeV_Index by (fastforce simp: m1_def)
next
  case 9
  then show ?case by simp
next
  case 10
  then show ?case by (simp add: m1_def m2_def)
next
  case 11
  then show ?case by (simp add: m1_def m2_def)
next
  case 12
  then show ?case by (simp add: m1_def m2_def)
next
  case 13
  then show ?case by (simp add: m1_def m2_def)
next
  case 14
  then show ?case by (simp add: m1_def m2_def m3_def)
next
  case 15
  then show ?case by (simp add: m1_def m2_def)
next
  case 16
  then show ?case by (simp add: m1_def m2_def m3_def)
next
  case 17
  then show ?case using psizeV_ValueField by (fastforce simp: m1_def)
next
  case 18
  then show ?case by (simp add: m1_def m2_def)
next
  case 19
  then show ?case using psizeV_ValueField by (fastforce simp: m1_def)
next
  case 20
  then show ?case by (simp add: m1_def m2_def)
next
  case 21
  then show ?case using psizeV_FieldByName by (fastforce simp: m1_def)
next
  case 22
  then show ?case using psizeV_FieldByName psizeV_searchNestedFields
    by (fastforce simp: m1_def)
next
  case 23
  then show ?case by (auto simp: m1_def dest!: psizeV_FieldByName)
qed

declare mapValues.simps [simp del] mapSlice.simps [simp del] mapSliceLoop.simps [simp del]
  verifyArrayTypesAreCompatible.simps [simp del] mapFields.simps [simp del]
  mapSourceFieldsLoop.simps [simp del] mapDestFieldsLoop.simps [simp del]
  mapDestField.simps [simp del] mapSourceField.simps [simp del] mapByFieldName.simps [simp del]

subsection \<open>Entry points\<close>

text \<open>
  The arguments are interface values: \<open>ZeroValue\<close> is the nil interface, for which
  \<^verbatim>\<open>reflect.TypeOf\<close> returns nil and the call of \<^verbatim>\<open>Kind\<close> on it is a nil
  dereference. The result is the value \<open>dest\<close> points to after the call.
\<close>

definition MapToDestination :: "Value \<Rightarrow> Value \<Rightarrow> error + val" where
  "MapToDestination source dest =
     (case dest of
        ZeroValue \<Rightarrow> Inl NilDereference
      | Value destType p \<Rightarrow>
          if Kind destType \<noteq> KPtr then Inl DestMustBePointer
          else mapValues \<lparr>useSourceMemberList = False\<rparr> source (ValueElem dest))"

definition MapFromSource :: "Value \<Rightarrow> Value \<Rightarrow> error + val" where
  "MapFromSource source dest =
     (case dest of
        ZeroValue \<Rightarrow> Inl NilDereference
      | Value destType p \<Rightarrow>
          if Kind destType \<noteq> KPtr then Inl DestMustBePointer
          else mapValues \<lparr>useSourceMemberList = True\<rparr> source (ValueElem dest))"

text \<open>
  The loop of \<^verbatim>\<open>MapFromSourceMap\<close> over the entries of the map, in the order the
  iteration happens to visit them. The keys of a Go map are distinct.
\<close>

fun mapSourceMapLoop :: "(string \<times> Value) list \<Rightarrow> Value \<Rightarrow> error + Value" where
  "mapSourceMapLoop [] destVal = Inr destVal"
| "mapSourceMapLoop ((key, v) # rest) destVal =
     (case FieldByName destVal key of
        Inl e \<Rightarrow> Inl e
      | Inr destFieldVal \<Rightarrow>
          (case mapValues \<lparr>useSourceMemberList = True\<rparr> v destFieldVal of
             Inl e \<Rightarrow> Inl e
           | Inr x \<Rightarrow>
               (case destVal of
                  ZeroValue \<Rightarrow> Inl ReflectWrongKind
                | Value destType dv \<Rightarrow>
                    mapSourceMapLoop rest (Value destType (storeByName destType dv key x)))))"

definition MapFromSourceMap :: "(string \<times> Value) list \<Rightarrow> Value \<Rightarrow> error + Value" where
  "MapFromSourceMap source dest =
     (case dest of
        ZeroValue \<Rightarrow> Inl NilDereference
      | Value destType p \<Rightarrow>
          if Kind destType \<noteq> KPtr then Inl DestMustBePointer
          else mapSourceMapLoop source (ValueElem dest))"


section \<open>Properties\<close>

subsection \<open>The destination argument must be a pointer\<close>

text \<open>
  The guard of the three entry points: a destination argument that holds a value whose
  type is not of pointer kind makes each of them panic with "Dest must be a pointer
  type", whatever the source is, and no mapping is attempted.
\<close>

lemma typed_dest_not_pointer_panics:
  "Kind t \<noteq> KPtr \<Longrightarrow>
      MapToDestination source (Value t v) = Inl DestMustBePointer
    \<and> MapFromSource source (Value t v) = Inl DestMustBePointer
    \<and> MapFromSourceMap sourceMap (Value t v) = Inl DestMustBePointer"
  by (simp add: MapToDestination_def MapFromSource_def MapFromSourceMap_def)

lemma typed_dest_not_pointer_panics_example:
  "MapToDestination (Value TInt (VInt 42))
        (Value (TStruct [Field ''Foo'' None False TInt]) (VStruct [VInt 0])) = Inl DestMustBePointer
   \<and> MapFromSource (Value TInt (VInt 42))
        (Value (TStruct [Field ''Foo'' None False TInt]) (VStruct [VInt 0])) = Inl DestMustBePointer
   \<and> MapFromSourceMap [(''Foo'', Value TInt (VInt 42))]
        (Value (TStruct [Field ''Foo'' None False TInt]) (VStruct [VInt 0])) = Inl DestMustBePointer"
  using typed_dest_not_pointer_panics[of "TStruct [Field ''Foo'' None False TInt]" "Value TInt (VInt 42)"
      "VStruct [VInt 0]" "[(''Foo'', Value TInt (VInt 42))]"]
  by simp

text \<open>
  C2. Every destination argument that is not a pointer is to be rejected with "Dest must
  be a pointer type". The guard misses one such argument: for the nil interface
  \<^verbatim>\<open>reflect.TypeOf(dest)\<close> is nil, and \<^verbatim>\<open>destType.Kind()\<close> dereferences it before the
  comparison with \<^verbatim>\<open>reflect.Ptr\<close> is made. Each of the three entry points then stops
  with the runtime's nil dereference and the message is never raised.
\<close>

theorem nil_dest_misses_pointer_check:
  "MapToDestination (Value (TStruct [Field ''Foo'' None False TInt]) (VStruct [VInt 42])) ZeroValue
     = Inl NilDereference
   \<and> MapFromSource (Value (TStruct [Field ''Foo'' None False TInt]) (VStruct [VInt 42])) ZeroValue
     = Inl NilDereference
   \<and> MapFromSourceMap [(''Foo'', Value TInt (VInt 42))] ZeroValue = Inl NilDereference
   \<and> Inl NilDereference \<noteq> (Inl DestMustBePointer :: error + val)"
  by (simp add: MapToDestination_def MapFromSource_def MapFromSourceMap_def)

subsection \<open>Keys of the source map that name no destination field\<close>

lemma mapValues_ZeroValue_dest: "\<exists>e. mapValues opts v ZeroValue = Inl e"
  by (cases v) (simp_all add: mapValues.simps)

lemma mapSourceMapLoop_unknown_key:
  assumes "(key, v) \<in> set sourceMap" and "TypeFieldByName t key = None"
  shows "\<exists>e. mapSourceMapLoop sourceMap (Value t dv) = Inl e"
  using assms(1)
proof (induction sourceMap arbitrary: dv)
  case Nil
  then show ?case by simp
next
  case (Cons kv rest)
  obtain k w where kv: "kv = (k, w)" by (cases kv)
  show ?case
  proof (cases "FieldByName (Value t dv) k")
    case (Inl e)
    then show ?thesis by (simp add: kv)
  next
    case (Inr destFieldVal)
    show ?thesis
    proof (cases "mapValues \<lparr>useSourceMemberList = True\<rparr> w destFieldVal")
      case (Inl e)
      then show ?thesis by (simp add: kv Inr)
    next
      case mapped: (Inr x)
      have "(k, w) \<noteq> (key, v)"
      proof
        assume "(k, w) = (key, v)"
        with Inr assms(2) have "destFieldVal = ZeroValue"
          by (auto simp: FieldByName_def split: if_splits)
        with mapped mapValues_ZeroValue_dest[of "\<lparr>useSourceMemberList = True\<rparr>" w]
        show False by auto
      qed
      with Cons.prems kv have "(key, v) \<in> set rest" by auto
      from Cons.IH[OF this] show ?thesis by (simp add: kv Inr mapped)
    qed
  qed
qed

text \<open>
  C10. When the source map has a key for which the type the destination points to has
  no field (\<^verbatim>\<open>FieldByName\<close> finds none), \<^verbatim>\<open>MapFromSourceMap\<close> panics, whatever the
  other entries and the order of the iteration are: the key is not passed over.
\<close>

theorem MapFromSourceMap_unknown_key_panics:
  assumes "(key, v) \<in> set sourceMap" and "TypeFieldByName (Elem pt) key = None"
  shows "\<exists>e. MapFromSourceMap sourceMap (Value pt p) = Inl e"
proof (cases "Kind pt = KPtr")
  case False
  then show ?thesis by (simp add: MapFromSourceMap_def)
next
  case True
  show ?thesis
  proof (cases "ValueElem (Value pt p)")
    case ZeroValue
    obtain k w rest where "sourceMap = (k, w) # rest"
      using assms(1) by (cases sourceMap) auto
    then show ?thesis using True ZeroValue by (simp add: MapFromSourceMap_def FieldByName_def)
  next
    case (Value t dv)
    then have "t = Elem pt" by (cases "Value pt p" rule: ValueElem.cases) auto
    with mapSourceMapLoop_unknown_key[OF assms(1), of t dv] assms(2) Value True
    show ?thesis by (simp add: MapFromSourceMap_def)
  qed
qed

theorem MapFromSourceMap_unknown_key_panics_witness:
  "(''Baz'', Value TString (VString ''x'')) \<in> set [(''Foo'', Value TString (VString ''abc'')), (''Baz'', Value TString (VString ''x''))]
   \<and> TypeFieldByName (Elem (TPtr (TStruct [Field ''Foo'' None False TString]))) ''Baz'' = None
   \<and> (\<exists>e. MapFromSourceMap [(''Foo'', Value TString (VString ''abc'')), (''Baz'', Value TString (VString ''x''))]
          (Value (TPtr (TStruct [Field ''Foo'' None False TString])) (VPtr (Some (VStruct [VString []])))) = Inl e)"
proof -
  have k: "(''Baz'', Value TString (VString ''x'')) \<in> set [(''Foo'', Value TString (VString ''abc'')), (''Baz'', Value TString (VString ''x''))]"
    by simp
  have n: "TypeFieldByName (Elem (TPtr (TStruct [Field ''Foo'' None False TString]))) ''Baz'' = None"
    by (simp add: TypeFieldByName_def nextLevel_def embeddedStruct_def map_filter_simps
        fieldByNameFunc.simps enumerate_eq_zip)
  from MapFromSourceMap_unknown_key_panics[OF k n] k n show ?thesis by blast
qed


subsection \<open>Pointer destinations\<close>




subsection \<open>Source-driven traversal needs every source field on the destination\<close>

lemma directField_found:
  "i < length fs \<Longrightarrow> \<exists>k f. directField (Name (fs ! i)) j fs = Some ([k], f)"
proof (induction fs arbitrary: i j)
  case Nil
  then show ?case by simp
next
  case (Cons g fs)
  then show ?case by (cases i) auto
qed

lemma own_field_not_in_nil_embedded:
  assumes "Kind sourceType = KStruct" and "i < NumField sourceType"
  shows "valueIsContainedInNilEmbeddedType (Value sourceType sv)
           (Name (structFields sourceType ! i)) = Inr False"
proof -
  obtain k f where "directField (Name (structFields sourceType ! i)) 0 (structFields sourceType) = Some ([k], f)"
    using directField_found[of i "structFields sourceType" 0] assms(2) by (auto simp: NumField_def)
  then show ?thesis using assms(1)
    by (simp add: valueIsContainedInNilEmbeddedType_def TypeFieldByName_def)
qed

lemma mapByFieldName_unresolved_dest:
  assumes "Kind destType = KStruct" and "TypeFieldByName destType destFieldName = None"
    and "valueIsContainedInNilEmbeddedType source sourceFieldName = Inr False"
  shows "\<exists>e. mapByFieldName opts source (Value destType dv) sourceFieldName destFieldName = Inl e"
proof -
  have d: "FieldByName (Value destType dv) destFieldName = Inr ZeroValue"
    using assms(1,2) by (simp add: FieldByName_def)
  show ?thesis
  proof (cases "FieldByName source sourceFieldName")
    case (Inl e)
    then show ?thesis using d assms(3) by (simp add: mapByFieldName.simps)
  next
    case (Inr sourceField)
    show ?thesis
    proof (cases "sourceField = ZeroValue")
      case False
      then show ?thesis
        using d assms(3) Inr mapValues_ZeroValue_dest[of opts sourceField]
        by (auto simp: mapByFieldName.simps)
    next
      case True
      show ?thesis
      proof (cases "searchNestedFields source sourceFieldName [0 ..< NumFieldV source]")
        case (Inl e)
        then show ?thesis using d assms(3) Inr True by (simp add: mapByFieldName.simps)
      next
        case nested: (Inr n)
        then show ?thesis
          using d assms(3) Inr True mapValues_ZeroValue_dest[of opts n]
          by (auto simp: mapByFieldName.simps)
      qed
    qed
  qed
qed

lemma mapSourceField_unresolved:
  assumes "Kind sourceType = KStruct" and "Kind destType = KStruct"
    and "i < NumField sourceType"
    and "\<not> Anonymous (structFields sourceType ! i)"
    and "Tag (structFields sourceType ! i) \<noteq> Some ''-''"
    and "TypeFieldByName destType
           (case Tag (structFields sourceType ! i) of
              None \<Rightarrow> Name (structFields sourceType ! i) | Some automapperTag \<Rightarrow> automapperTag) = None"
  shows "\<exists>e. mapSourceField opts (Value sourceType sv) (Value destType dv) i = Inl e"
proof -
  let ?f = "structFields sourceType ! i"
  let ?dn = "case Tag ?f of None \<Rightarrow> Name ?f | Some automapperTag \<Rightarrow> automapperTag"
  obtain e where "mapByFieldName opts (Value sourceType sv) (Value destType dv) (Name ?f) ?dn = Inl e"
    using mapByFieldName_unresolved_dest[OF assms(2,6) own_field_not_in_nil_embedded[OF assms(1,3)]]
    by blast
  then show ?thesis using assms(1,3,4,5)
    by (simp add: mapSourceField.simps Let_def)
qed

lemma mapSourceFieldsLoop_unresolved:
  assumes "Kind sourceType = KStruct" and "Kind destType = KStruct"
    and "i < NumField sourceType"
    and "\<not> Anonymous (structFields sourceType ! i)"
    and "Tag (structFields sourceType ! i) \<noteq> Some ''-''"
    and "TypeFieldByName destType
           (case Tag (structFields sourceType ! i) of
              None \<Rightarrow> Name (structFields sourceType ! i) | Some automapperTag \<Rightarrow> automapperTag) = None"
    and "j \<le> i"
  shows "\<exists>e. mapSourceFieldsLoop opts (Value sourceType sv) (Value destType dv) j = Inl e"
  using assms(7)
proof (induction "i - j" arbitrary: j dv)
  case 0
  then have "j = i" by simp
  then show ?case
    using mapSourceField_unresolved[OF assms(1-6), of opts sv dv] assms(1,3)
    by (auto simp: mapSourceFieldsLoop.simps[of opts "Value sourceType sv" _ i])
next
  case (Suc n)
  then have lt: "j < NumField sourceType" and nx: "n = i - Suc j" "Suc j \<le> i"
    using assms(3) by auto
  show ?case
  proof (cases "mapSourceField opts (Value sourceType sv) (Value destType dv) j")
    case (Inl e)
    then show ?thesis using assms(1) lt
      by (simp add: mapSourceFieldsLoop.simps[of opts "Value sourceType sv" _ j])
  next
    case (Inr dv')
    then show ?thesis using assms(1) lt Suc.hyps(1)[OF nx, of dv']
      by (simp add: mapSourceFieldsLoop.simps[of opts "Value sourceType sv" _ j])
  qed
qed

text \<open>
  C3 (as amended). Under \<^verbatim>\<open>MapFromSource\<close>, between two struct types that differ, a
  source field that is neither skipped nor embedded must have a field on the destination
  under its tagged name, or under its own name when it has no tag: when the destination
  type has no such field the call panics, for a source passed by value and for one
  passed by pointer. In particular \<open>source{Foo: "abc"}\<close> into \<open>dest{}\<close> panics, with the
  zero-Value panic of reflect wrapped by the handler of field \<open>Foo\<close>.
\<close>

theorem MapFromSource_unresolved_field_panics:
  assumes "Kind sourceType = KStruct" and "Kind destType = KStruct"
    and "destType \<noteq> sourceType"
    and "i < NumField sourceType"
    and "\<not> Anonymous (structFields sourceType ! i)"
    and "Tag (structFields sourceType ! i) \<noteq> Some ''-''"
    and "TypeFieldByName destType
           (case Tag (structFields sourceType ! i) of
              None \<Rightarrow> Name (structFields sourceType ! i) | Some automapperTag \<Rightarrow> automapperTag) = None"
  shows "(\<exists>e. MapFromSource (Value sourceType sv) (Value (TPtr destType) (VPtr (Some dv))) = Inl e)
       \<and> (\<exists>e. MapFromSource (Value (TPtr sourceType) (VPtr (Some sv)))
                 (Value (TPtr destType) (VPtr (Some dv))) = Inl e)
       \<and> MapFromSource (Value (TPtr (TStruct [Field ''Foo'' None False TString])) (VPtr (Some (VStruct [VString ''abc'']))))
                 (Value (TPtr (TStruct [])) (VPtr (Some (VStruct []))))
           = Inl (ErrorMappingField ''Foo'' ReflectZeroValue)"
proof -
  let ?o = "\<lparr>useSourceMemberList = True\<rparr>"
  obtain e where e: "mapSourceFieldsLoop ?o (Value sourceType sv) (Value destType dv) 0 = Inl e"
    using mapSourceFieldsLoop_unresolved[OF assms(1,2,4-7), of 0 ?o sv dv] by auto
  have byval: "mapValues ?o (Value sourceType sv) (Value destType dv) = Inl e"
    using assms(1,2,3) e by (simp add: mapValues.simps[of ?o "Value sourceType sv"] mapFields.simps)
  have byptr: "mapValues ?o (Value (TPtr sourceType) (VPtr (Some sv))) (Value destType dv) = Inl e"
    using assms(2) byval by (simp add: mapValues.simps[of ?o "Value (TPtr sourceType) (VPtr (Some sv))"])
  have inst: "MapFromSource (Value (TPtr (TStruct [Field ''Foo'' None False TString])) (VPtr (Some (VStruct [VString ''abc'']))))
                 (Value (TPtr (TStruct [])) (VPtr (Some (VStruct []))))
           = Inl (ErrorMappingField ''Foo'' ReflectZeroValue)"
    by code_simp
  show ?thesis using byval byptr inst by (simp add: MapFromSource_def)
qed

theorem MapFromSource_unresolved_field_panics_witness:
  "\<exists>e. MapFromSource
      (Value (TStruct [Field ''Foo'' None False TString, Field ''Baz'' (Some ''Qux'') False TInt])
         (VStruct [VString ''abc'', VInt 7]))
      (Value (TPtr (TStruct [Field ''Foo'' None False TString, Field ''Baz'' None False TInt]))
         (VPtr (Some (VStruct [VString [], VInt 0])))) = Inl e"
proof -
  let ?S = "TStruct [Field ''Foo'' None False TString, Field ''Baz'' (Some ''Qux'') False TInt]"
  let ?D = "TStruct [Field ''Foo'' None False TString, Field ''Baz'' None False TInt]"
  have 1: "Kind ?S = KStruct" by simp
  have 2: "Kind ?D = KStruct" by simp
  have 3: "?D \<noteq> ?S" by simp
  have 4: "1 < NumField ?S" by (simp add: NumField_def)
  have 5: "\<not> Anonymous (structFields ?S ! 1)" by simp
  have 6: "Tag (structFields ?S ! 1) \<noteq> Some ''-''" by simp
  have 7: "TypeFieldByName ?D
           (case Tag (structFields ?S ! 1) of
              None \<Rightarrow> Name (structFields ?S ! 1) | Some automapperTag \<Rightarrow> automapperTag) = None"
    by code_simp
  from MapFromSource_unresolved_field_panics[OF 1 2 3 4 5 6 7, of "VStruct [VString ''abc'', VInt 7]" "VStruct [VString [], VInt 0]"]
  show ?thesis by blast
qed

text \<open>
  The claim as stated, for every field that is not skipped, fails for an embedded source
  field: it is mapped as a whole onto the destination struct, which needs no field of
  its name.
\<close>

theorem MapFromSource_embedded_field_counterexample:
  "TypeFieldByName (TNamed ''DestTypeA'' (TStruct [Field ''Foo'' None False TInt, Field ''Bar'' None False TString]))
      ''SourceTypeA'' = None
   \<and> MapFromSource
      (Value (TPtr (TStruct [Field ''SourceTypeA'' None True
            (TNamed ''SourceTypeA'' (TStruct [Field ''Foo'' None False TInt, Field ''Bar'' None False TString]))]))
         (VPtr (Some (VStruct [VStruct [VInt 42, VString []]]))))
      (Value (TPtr (TNamed ''DestTypeA'' (TStruct [Field ''Foo'' None False TInt, Field ''Bar'' None False TString])))
         (VPtr (Some (VStruct [VInt 0, VString []]))))
     = Inr (VStruct [VInt 42, VString []])"
  by code_simp


subsection \<open>Fields that are found directly on both sides\<close>

lemma directField_distinct:
  "distinct (map Name fs) \<Longrightarrow> k < length fs \<Longrightarrow>
   directField (Name (fs ! k)) j fs = Some ([j + k], fs ! k)"
proof (induction fs arbitrary: k j)
  case Nil
  then show ?case by simp
next
  case (Cons g fs)
  show ?case
  proof (cases k)
    case 0
    then show ?thesis by simp
  next
    case (Suc n)
    with Cons.prems have n: "distinct (map Name fs)" "n < length fs" and "Name g \<notin> Name ` set fs"
      by auto
    then have "Name g \<noteq> Name (fs ! n)" using nth_mem[OF n(2)] by (metis imageI)
    note this n
    with Cons.IH[of n "Suc j"] Suc show ?thesis by simp
  qed
qed

lemma TypeFieldByName_direct:
  assumes "distinct (map Name (structFields t))" and "k < NumField t"
    and "Name (structFields t ! k) \<noteq> []"
  shows "TypeFieldByName t (Name (structFields t ! k)) = Some ([k], structFields t ! k)"
  using directField_distinct[OF assms(1), of k 0] assms(2,3)
  by (simp add: TypeFieldByName_def NumField_def)

lemma FieldByName_direct:
  assumes "Kind t = KStruct" and "distinct (map Name (structFields t))" and "k < NumField t"
    and "Name (structFields t ! k) \<noteq> []"
  shows "FieldByName (Value t v) (Name (structFields t ! k))
           = Inr (Value (FType (structFields t ! k)) (fieldVal v k))"
  using TypeFieldByName_direct[OF assms(2,3,4)] assms(1,3)
  by (simp add: FieldByName_def FieldByIndex_def)


lemma storeByName_direct:
  assumes "distinct (map Name (structFields t))" and "k < NumField t"
    and "Name (structFields t ! k) \<noteq> []"
  shows "storeByName t (VStruct vs) (Name (structFields t ! k)) x = VStruct (vs[k := x])"
  using TypeFieldByName_direct[OF assms] by (simp add: storeByName_def)


subsection \<open>Rename tags\<close>




subsection \<open>The probe for an empty source slice\<close>

lemma mapSlice_single:
  assumes "Kind sT = KSlice" and "Kind dT = KSlice"
  shows "mapSlice opts (Value sT (VSlice [x])) (Value dT dv)
         = (case mapValues opts (Value (Elem sT) x) (Value (Elem dT) (zero (Elem dT))) of
              Inl e \<Rightarrow> Inl e
            | Inr val \<Rightarrow> Inr (VSlice [val]))"
proof -
  have loop: "mapSliceLoop opts (Value sT (VSlice [x])) dT 0 (Suc 0) [zero (Elem dT)]
      = (case mapValues opts (Value (Elem sT) x) (Value (Elem dT) (zero (Elem dT))) of
           Inl e \<Rightarrow> Inl e
         | Inr val \<Rightarrow> Inr [val])"
    using assms(1)
    by (simp add: mapSliceLoop.simps[of _ _ _ 0] mapSliceLoop.simps[of _ _ _ "Suc 0"]
        split: sum.splits)
  show ?thesis using assms
    by (simp add: mapSlice.simps loop split: sum.splits)
qed

lemma verifyArrayTypesAreCompatible_probe:
  assumes "Kind sT = KSlice" and "Kind dT = KSlice" and "dT \<noteq> sT"
  shows "verifyArrayTypesAreCompatible opts (Value sT sv) (Value dT dv)
         = (case mapValues opts (Value (Elem sT) (zero (Elem sT)))
                  (Value (Elem dT) (zero (Elem dT))) of
              Inl e \<Rightarrow> Inl e
            | Inr val \<Rightarrow> Inr ())"
proof -
  have ne: "TPtr dT \<noteq> sT" using assms(1) by auto
  have inner: "mapValues opts (Value sT (VSlice [zero (Elem sT)])) (Value dT (zero dT))
      = mapSlice opts (Value sT (VSlice [zero (Elem sT)])) (Value dT (zero dT))"
    using assms by (simp add: mapValues.simps[of opts "Value sT (VSlice [zero (Elem sT)])"])
  have outer: "mapValues opts (Value sT (VSlice [zero (Elem sT)])) (Value (TPtr dT) (VPtr None))
      = (case mapSlice opts (Value sT (VSlice [zero (Elem sT)])) (Value dT (zero dT)) of
           Inl e \<Rightarrow> Inl e
         | Inr val \<Rightarrow> Inr (VPtr (Some val)))"
    using ne inner
    by (simp add: mapValues.simps[of opts "Value sT (VSlice [zero (Elem sT)])" "Value (TPtr dT) (VPtr None)"])
  show ?thesis using assms(1)
    by (simp add: verifyArrayTypesAreCompatible.simps outer mapSlice_single[OF assms(1,2)]
        split: sum.splits)
qed

text \<open>
  C4 (as amended). When a source slice that is empty is mapped to a slice type that is
  not identical, the call maps, through the probe, one zero value of the source's
  element type to the destination's element type: the call panics exactly when that
  mapping panics, with the same panic, and otherwise yields the empty slice. So element
  types between which not even the zero value can be mapped fail loudly on an empty
  source.
\<close>

theorem empty_slice_probe:
  assumes "Kind sT = KSlice" and "Kind dT = KSlice" and "dT \<noteq> sT"
  shows "mapValues opts (Value sT (VSlice [])) (Value dT dv)
         = (case mapValues opts (Value (Elem sT) (zero (Elem sT)))
                  (Value (Elem dT) (zero (Elem dT))) of
              Inl e \<Rightarrow> Inl e
            | Inr val \<Rightarrow> Inr (VSlice []))"
proof -
  have "mapValues opts (Value sT (VSlice [])) (Value dT dv)
      = mapSlice opts (Value sT (VSlice [])) (Value dT dv)"
    using assms by (simp add: mapValues.simps[of opts "Value sT (VSlice [])"])
  also have "\<dots> = (case verifyArrayTypesAreCompatible opts (Value sT (VSlice [])) (Value dT dv) of
                     Inl e \<Rightarrow> Inl e
                   | Inr u \<Rightarrow> Inr (VSlice []))"
    using assms(1,2) by (simp add: mapSlice.simps mapSliceLoop.simps[of _ _ _ 0 0])
  finally show ?thesis
    by (simp add: verifyArrayTypesAreCompatible_probe[OF assms] split: sum.splits)
qed

theorem empty_slice_probe_witness:
  "mapValues \<lparr>useSourceMemberList = False\<rparr>
      (Value (TSlice (TStruct [Field ''Foo'' None False TString])) (VSlice []))
      (Value (TSlice (TStruct [Field ''Bar'' None False TInt])) (VSlice []))
     = Inl (ErrorMappingField ''Bar'' ReflectZeroValue)
   \<and> mapValues \<lparr>useSourceMemberList = False\<rparr>
      (Value (TSlice TString) (VSlice [])) (Value (TSlice TInt) (VSlice []))
     = Inl ReflectNotConvertible"
proof -
  let ?o = "\<lparr>useSourceMemberList = False\<rparr>"
  let ?S = "TSlice (TStruct [Field ''Foo'' None False TString])"
  let ?D = "TSlice (TStruct [Field ''Bar'' None False TInt])"
  have 1: "Kind ?S = KSlice" "Kind ?D = KSlice" "?D \<noteq> ?S" by simp_all
  have 2: "Kind (TSlice TString) = KSlice" "Kind (TSlice TInt) = KSlice" "TSlice TInt \<noteq> TSlice TString"
    by simp_all
  have e1: "mapValues ?o (Value (Elem ?S) (zero (Elem ?S))) (Value (Elem ?D) (zero (Elem ?D)))
      = Inl (ErrorMappingField ''Bar'' ReflectZeroValue)"
    by code_simp
  have e2: "mapValues ?o (Value (Elem (TSlice TString)) (zero (Elem (TSlice TString))))
      (Value (Elem (TSlice TInt)) (zero (Elem (TSlice TInt)))) = Inl ReflectNotConvertible"
    by code_simp
  show ?thesis
    using empty_slice_probe[OF 1, of ?o "VSlice []"] empty_slice_probe[OF 2, of ?o "VSlice []"] e1 e2
    by simp
qed

text \<open>
  The claim as stated fails where the zero value hides the incompatibility: a slice of
  string pointers cannot be mapped to a slice of int pointers as soon as it holds a
  pointer that is not nil, but the empty slice is mapped without a panic, because the
  probe's element is a nil pointer.
\<close>

theorem empty_slice_probe_counterexample:
  "MapToDestination (Value (TSlice (TPtr TString)) (VSlice [VPtr (Some (VString ''a''))]))
      (Value (TPtr (TSlice (TPtr TInt))) (VPtr (Some (VSlice [])))) = Inl ReflectNotConvertible
   \<and> MapToDestination (Value (TSlice (TPtr TString)) (VSlice []))
      (Value (TPtr (TSlice (TPtr TInt))) (VPtr (Some (VSlice [])))) = Inr (VSlice [])"
  by code_simp


subsection \<open>Name resolution when the source has no field of the name\<close>

lemma FieldByIndexLoop_not_zero:
  "FieldByIndexLoop first v index = Inr w \<Longrightarrow> index \<noteq> [] \<Longrightarrow> w \<noteq> ZeroValue"
proof (induction index arbitrary: first v)
  case Nil
  then show ?case by simp
next
  case (Cons x xs)
  from Cons.prems obtain v' u where u: "ValueField v' x = Inr u" "FieldByIndexLoop False u xs = Inr w"
    by (auto split: if_splits sum.splits)
  have "u \<noteq> ZeroValue" using u(1) by (cases v') (auto split: if_splits)
  then show ?case using Cons.IH[OF u(2)] u(2) by (cases xs) auto
qed

lemma FieldByName_found_not_zero:
  assumes "TypeFieldByName t name = Some r" and "FieldByName (Value t v) name = Inr w"
  shows "w \<noteq> ZeroValue"
proof -
  obtain index f where r: "r = (index, f)" by (cases r)
  from assms r have "FieldByIndexLoop True (Value t v) index = Inr w"
    by (auto simp: FieldByName_def FieldByIndex_def split: if_splits)
  then show ?thesis
    using FieldByIndexLoop_not_zero TypeFieldByName_index assms(1) r by blast
qed

definition noFieldInside :: "gtype \<Rightarrow> string \<Rightarrow> nat \<Rightarrow> bool" where
  "noFieldInside S name i =
     (Kind (FType (structFields S ! i)) \<noteq> KStruct
      \<or> TypeFieldByName (FType (structFields S ! i)) name = None)"

lemma searchNestedFields_pass:
  assumes "Kind S = KStruct"
    and "\<forall>i \<in> set is. i < NumField S \<and> noFieldInside S name i"
  shows "searchNestedFields (Value S sv) name (is @ rest)
         = searchNestedFields (Value S sv) name rest"
  using assms(2)
proof (induction "is")
  case Nil
  then show ?case by simp
next
  case (Cons i "is")
  then have i: "i < NumField S" "noFieldInside S name i" by auto
  show ?case
  proof (cases "Kind (FType (structFields S ! i)) = KStruct")
    case False
    then show ?thesis using Cons i assms(1) by simp
  next
    case True
    with i(2) have "TypeFieldByName (FType (structFields S ! i)) name = None"
      by (simp add: noFieldInside_def)
    then show ?thesis using Cons i assms(1) True by (simp add: FieldByName_def)
  qed
qed

lemma searchNestedFields_first:
  assumes "Kind S = KStruct" and "j < NumField S"
    and "\<forall>i < j. noFieldInside S name i"
    and "Kind (FType (structFields S ! j)) = KStruct"
    and "TypeFieldByName (FType (structFields S ! j)) name = Some r"
  shows "searchNestedFields (Value S sv) name [0 ..< NumField S]
         = FieldByName (Value (FType (structFields S ! j)) (fieldVal sv j)) name"
proof -
  have split: "[0 ..< NumField S] = [0 ..< j] @ j # [Suc j ..< NumField S]"
    using assms(2) by (metis less_imp_le_nat upt_add_eq_append upt_conv_Cons plus_nat.add_0 le0 le_add_diff_inverse)
  have pass: "\<forall>i \<in> set [0 ..< j]. i < NumField S \<and> noFieldInside S name i"
    using assms(2,3) by auto
  have "searchNestedFields (Value S sv) name [0 ..< NumField S]
      = searchNestedFields (Value S sv) name (j # [Suc j ..< NumField S])"
    unfolding split by (rule searchNestedFields_pass[OF assms(1) pass])
  also have "\<dots> = FieldByName (Value (FType (structFields S ! j)) (fieldVal sv j)) name"
    using assms(1,2,4) FieldByName_found_not_zero[OF assms(5)]
    by (auto split: sum.splits)
  finally show ?thesis .
qed

lemma searchNestedFields_none:
  assumes "Kind S = KStruct" and "\<forall>i < NumField S. noFieldInside S name i"
  shows "searchNestedFields (Value S sv) name [0 ..< NumField S] = Inr ZeroValue"
  using searchNestedFields_pass[OF assms(1), of "[0 ..< NumField S]" name sv "[]"] assms(2)
  by simp

lemma mapByFieldName_source_unresolved:
  assumes "Kind S = KStruct" and "TypeFieldByName S sourceFieldName = None"
    and "FieldByName (Value D dv) destFieldName = Inr destField"
  shows "mapByFieldName opts (Value S sv) (Value D dv) sourceFieldName destFieldName
         = (if ValueKind destField = KStruct then
              (case mapValues opts (Value S sv) destField of
                 Inl e \<Rightarrow> Inl e
               | Inr x \<Rightarrow> Inr (storeByName D dv destFieldName x))
            else (case searchNestedFields (Value S sv) sourceFieldName [0 ..< NumField S] of
                    Inl e \<Rightarrow> Inl e
                  | Inr nested \<Rightarrow>
                      (case mapValues opts nested destField of
                         Inl e \<Rightarrow> Inl e
                       | Inr x \<Rightarrow> Inr (storeByName D dv destFieldName x))))"
  using assms
  by (simp add: mapByFieldName.simps valueIsContainedInNilEmbeddedType_def FieldByName_def)

text \<open>
  C8. Let the source be a struct that has no field of the wanted name (neither declared
  nor promoted), and let the destination field exist. If the destination field is of
  struct kind, the whole source is mapped into it. Otherwise the fields of the source
  are visited in declaration order and the first one of struct kind that has a field of
  the name supplies the value; fields before it that are not structs, or are structs
  without such a field, are passed over. The search looks into the direct struct fields
  of the source only: when none of them has a field of the name the call panics,
  whatever lies deeper.
\<close>

theorem mapByFieldName_fallback:
  assumes "Kind S = KStruct" and "TypeFieldByName S name = None"
    and "FieldByName (Value D dv) destFieldName = Inr destField"
  shows "(ValueKind destField = KStruct \<longrightarrow>
            mapByFieldName opts (Value S sv) (Value D dv) name destFieldName
              = (case mapValues opts (Value S sv) destField of
                   Inl e \<Rightarrow> Inl e
                 | Inr x \<Rightarrow> Inr (storeByName D dv destFieldName x)))
       \<and> (ValueKind destField \<noteq> KStruct \<and> j < NumField S
            \<and> (\<forall>i < j. noFieldInside S name i)
            \<and> Kind (FType (structFields S ! j)) = KStruct
            \<and> TypeFieldByName (FType (structFields S ! j)) name \<noteq> None \<longrightarrow>
            mapByFieldName opts (Value S sv) (Value D dv) name destFieldName
              = (case FieldByName (Value (FType (structFields S ! j)) (fieldVal sv j)) name of
                   Inl e \<Rightarrow> Inl e
                 | Inr nested \<Rightarrow>
                     (case mapValues opts nested destField of
                        Inl e \<Rightarrow> Inl e
                      | Inr x \<Rightarrow> Inr (storeByName D dv destFieldName x))))
       \<and> (ValueKind destField \<noteq> KStruct \<and> (\<forall>i < NumField S. noFieldInside S name i) \<longrightarrow>
            mapByFieldName opts (Value S sv) (Value D dv) name destFieldName
              = Inl ReflectZeroValue)"
proof (intro conjI impI)
  assume "ValueKind destField = KStruct"
  then show "mapByFieldName opts (Value S sv) (Value D dv) name destFieldName
              = (case mapValues opts (Value S sv) destField of
                   Inl e \<Rightarrow> Inl e
                 | Inr x \<Rightarrow> Inr (storeByName D dv destFieldName x))"
    by (simp add: mapByFieldName_source_unresolved[OF assms])
next
  assume a: "ValueKind destField \<noteq> KStruct \<and> j < NumField S
            \<and> (\<forall>i < j. noFieldInside S name i)
            \<and> Kind (FType (structFields S ! j)) = KStruct
            \<and> TypeFieldByName (FType (structFields S ! j)) name \<noteq> None"
  then obtain r where r: "TypeFieldByName (FType (structFields S ! j)) name = Some r" by auto
  have "searchNestedFields (Value S sv) name [0 ..< NumField S]
         = FieldByName (Value (FType (structFields S ! j)) (fieldVal sv j)) name"
    using searchNestedFields_first[OF assms(1) _ _ _ r] a by blast
  then show "mapByFieldName opts (Value S sv) (Value D dv) name destFieldName
              = (case FieldByName (Value (FType (structFields S ! j)) (fieldVal sv j)) name of
                   Inl e \<Rightarrow> Inl e
                 | Inr nested \<Rightarrow>
                     (case mapValues opts nested destField of
                        Inl e \<Rightarrow> Inl e
                      | Inr x \<Rightarrow> Inr (storeByName D dv destFieldName x)))"
    using a by (simp add: mapByFieldName_source_unresolved[OF assms])
next
  assume a: "ValueKind destField \<noteq> KStruct \<and> (\<forall>i < NumField S. noFieldInside S name i)"
  then have "searchNestedFields (Value S sv) name [0 ..< NumField S] = Inr ZeroValue"
    using searchNestedFields_none[OF assms(1)] by blast
  then show "mapByFieldName opts (Value S sv) (Value D dv) name destFieldName = Inl ReflectZeroValue"
    using a by (simp add: mapByFieldName_source_unresolved[OF assms] mapValues.simps)
qed

theorem mapByFieldName_fallback_witness:
  "mapByFieldName \<lparr>useSourceMemberList = False\<rparr>
      (Value (TStruct [Field ''N'' None False TInt,
                       Field ''A'' None False (TStruct [Field ''X'' None False TInt]),
                       Field ''B'' None False (TStruct [Field ''Bar'' None False TString]),
                       Field ''C'' None False (TStruct [Field ''Bar'' None False TString])])
         (VStruct [VInt 7, VStruct [VInt 1], VStruct [VString ''first''], VStruct [VString ''second'']]))
      (Value (TStruct [Field ''Bar'' None False TString,
                       Field ''Child'' None False (TStruct [Field ''N'' None False TInt])])
         (VStruct [VString [], VStruct [VInt 0]]))
      ''Bar'' ''Bar''
     = Inr (VStruct [VString ''first'', VStruct [VInt 0]])
   \<and> mapByFieldName \<lparr>useSourceMemberList = False\<rparr>
      (Value (TStruct [Field ''N'' None False TInt,
                       Field ''A'' None False (TStruct [Field ''X'' None False TInt]),
                       Field ''B'' None False (TStruct [Field ''Bar'' None False TString]),
                       Field ''C'' None False (TStruct [Field ''Bar'' None False TString])])
         (VStruct [VInt 7, VStruct [VInt 1], VStruct [VString ''first''], VStruct [VString ''second'']]))
      (Value (TStruct [Field ''Bar'' None False TString,
                       Field ''Child'' None False (TStruct [Field ''N'' None False TInt])])
         (VStruct [VString [], VStruct [VInt 0]]))
      ''Child'' ''Child''
     = Inr (VStruct [VString [], VStruct [VInt 7]])
   \<and> mapByFieldName \<lparr>useSourceMemberList = False\<rparr>
      (Value (TStruct [Field ''A'' None False
                 (TStruct [Field ''B'' None False (TStruct [Field ''Bar'' None False TString])])])
         (VStruct [VStruct [VStruct [VString ''deep'']]]))
      (Value (TStruct [Field ''Bar'' None False TString,
                       Field ''Child'' None False (TStruct [Field ''N'' None False TInt])])
         (VStruct [VString [], VStruct [VInt 0]]))
      ''Bar'' ''Bar''
     = Inl ReflectZeroValue"
proof -
  let ?o = "\<lparr>useSourceMemberList = False\<rparr>"
  let ?S = "TStruct [Field ''N'' None False TInt,
                       Field ''A'' None False (TStruct [Field ''X'' None False TInt]),
                       Field ''B'' None False (TStruct [Field ''Bar'' None False TString]),
                       Field ''C'' None False (TStruct [Field ''Bar'' None False TString])]"
  let ?sv = "VStruct [VInt 7, VStruct [VInt 1], VStruct [VString ''first''], VStruct [VString ''second'']]"
  let ?S2 = "TStruct [Field ''A'' None False
                 (TStruct [Field ''B'' None False (TStruct [Field ''Bar'' None False TString])])]"
  let ?sv2 = "VStruct [VStruct [VStruct [VString ''deep'']]]"
  let ?D = "TStruct [Field ''Bar'' None False TString,
                       Field ''Child'' None False (TStruct [Field ''N'' None False TInt])]"
  let ?dv = "VStruct [VString [], VStruct [VInt 0]]"
  have k: "Kind ?S = KStruct" "Kind ?S2 = KStruct" by simp_all
  have n1: "TypeFieldByName ?S ''Bar'' = None" by code_simp
  have n2: "TypeFieldByName ?S ''Child'' = None" by code_simp
  have n3: "TypeFieldByName ?S2 ''Bar'' = None" by code_simp
  have d1: "FieldByName (Value ?D ?dv) ''Bar'' = Inr (Value TString (VString []))" by code_simp
  have d2: "FieldByName (Value ?D ?dv) ''Child''
      = Inr (Value (TStruct [Field ''N'' None False TInt]) (VStruct [VInt 0]))" by code_simp
  have t0: "TypeFieldByName TInt ''Bar'' = None" by code_simp
  have t1: "TypeFieldByName (TStruct [Field ''X'' None False TInt]) ''Bar'' = None" by code_simp
  have t2: "TypeFieldByName (TStruct [Field ''Bar'' None False TString]) ''Bar''
      = Some ([0], Field ''Bar'' None False TString)" by code_simp
  have t3: "TypeFieldByName (TStruct [Field ''B'' None False (TStruct [Field ''Bar'' None False TString])]) ''Bar''
      = None" by code_simp
  have first: "ValueKind (Value TString (VString [])) \<noteq> KStruct \<and> 2 < NumField ?S
            \<and> (\<forall>i < 2. noFieldInside ?S ''Bar'' i)
            \<and> Kind (FType (structFields ?S ! 2)) = KStruct
            \<and> TypeFieldByName (FType (structFields ?S ! 2)) ''Bar'' \<noteq> None"
    using t1 t2 by (auto simp: NumField_def noFieldInside_def less_Suc_eq numeral_2_eq_2)
  have none: "ValueKind (Value TString (VString [])) \<noteq> KStruct
            \<and> (\<forall>i < NumField ?S2. noFieldInside ?S2 ''Bar'' i)"
    using t3 by (auto simp: NumField_def noFieldInside_def)
  have whole: "ValueKind (Value (TStruct [Field ''N'' None False TInt]) (VStruct [VInt 0])) = KStruct"
    by simp
  have r1: "(case FieldByName (Value (FType (structFields ?S ! 2)) (fieldVal ?sv 2)) ''Bar'' of
                   Inl e \<Rightarrow> Inl e
                 | Inr nested \<Rightarrow>
                     (case mapValues ?o nested (Value TString (VString [])) of
                        Inl e \<Rightarrow> Inl e
                      | Inr x \<Rightarrow> Inr (storeByName ?D ?dv ''Bar'' x)))
      = Inr (VStruct [VString ''first'', VStruct [VInt 0]])"
    by code_simp
  have r2: "(case mapValues ?o (Value ?S ?sv) (Value (TStruct [Field ''N'' None False TInt]) (VStruct [VInt 0])) of
                   Inl e \<Rightarrow> Inl e
                 | Inr x \<Rightarrow> Inr (storeByName ?D ?dv ''Child'' x))
      = Inr (VStruct [VString [], VStruct [VInt 7]])"
    by code_simp
  have a: "mapByFieldName ?o (Value ?S ?sv) (Value ?D ?dv) ''Bar'' ''Bar''
      = Inr (VStruct [VString ''first'', VStruct [VInt 0]])"
    using mapByFieldName_fallback[OF k(1) n1 d1, where j=2 and opts="?o" and sv="?sv",
        THEN conjunct2, THEN conjunct1, THEN mp, OF first]
    by (simp only: r1)
  have b: "mapByFieldName ?o (Value ?S ?sv) (Value ?D ?dv) ''Child'' ''Child''
      = Inr (VStruct [VString [], VStruct [VInt 7]])"
    using mapByFieldName_fallback[OF k(1) n2 d2, where j=0 and opts="?o" and sv="?sv",
        THEN conjunct1, THEN mp, OF whole]
    by (simp only: r2)
  have c: "mapByFieldName ?o (Value ?S2 ?sv2) (Value ?D ?dv) ''Bar'' ''Bar'' = Inl ReflectZeroValue"
    using mapByFieldName_fallback[OF k(2) n3 d1, where j=0 and opts="?o" and sv="?sv2",
        THEN conjunct2, THEN conjunct2, THEN mp, OF none] .
  from a b c show ?thesis by (simp only: simp_thms)
qed


subsection \<open>Skipped fields\<close>








subsection \<open>Where a field found by name lies\<close>

text \<open>
  The index path of a field found by name starts at a direct field of that name, or at
  an embedded field through which the name is promoted.
\<close>

definition levelHeads :: "field list \<Rightarrow> level \<Rightarrow> bool" where
  "levelHeads fs lvl =
     list_all (\<lambda>(p, fs'). p \<noteq> [] \<and> hd p < length fs \<and> Anonymous (fs ! hd p)) lvl"

lemma set_map_filter: "set (List.map_filter g xs) = {y. \<exists>x \<in> set xs. g x = Some y}"
  by (induction xs) (auto split: option.splits)

lemma embeddedStruct_Anonymous: "embeddedStruct f = Some fs' \<Longrightarrow> Anonymous f"
  by (simp add: embeddedStruct_def split: if_splits)

lemma levelHeads_root: "levelHeads fs (nextLevel [([], fs)])"
proof -
  have "Anonymous (fs ! i)" if "embeddedStruct (fs ! i) = Some fs'" for i fs'
    using that by (rule embeddedStruct_Anonymous)
  then show ?thesis
    by (auto simp: levelHeads_def nextLevel_def list_all_iff set_map_filter in_set_enumerate_eq
        split: option.splits)
qed

lemma levelHeads_next: "levelHeads fs lvl \<Longrightarrow> levelHeads fs (nextLevel lvl)"
  by (fastforce simp: levelHeads_def nextLevel_def list_all_iff set_map_filter
      split: option.splits)

lemma levelHeads_matches:
  "levelHeads fs lvl \<Longrightarrow> (index, f) \<in> set (levelMatches name lvl) \<Longrightarrow>
   index \<noteq> [] \<and> hd index < length fs \<and> Anonymous (fs ! hd index)"
  by (fastforce simp: levelHeads_def levelMatches_def list_all_iff)

lemma fieldByNameFunc_head:
  "fieldByNameFunc name lvl = Some (index, f) \<Longrightarrow> levelHeads fs lvl \<Longrightarrow>
   index \<noteq> [] \<and> hd index < length fs \<and> Anonymous (fs ! hd index)"
proof (induction name lvl rule: fieldByNameFunc.induct)
  case (1 name lvl)
  show ?case
  proof (cases "levelMatches name lvl")
    case Nil
    with 1 levelHeads_next[of fs lvl] show ?thesis
      by (auto simp: fieldByNameFunc.simps[of name lvl] split: if_splits)
  next
    case (Cons m ms)
    with "1.prems" have "ms = []" "m = (index, f)"
      by (auto simp: fieldByNameFunc.simps[of name lvl] split: if_splits list.splits)
    with Cons levelHeads_matches[OF "1.prems"(2), of index f name] show ?thesis by simp
  qed
qed

lemma directField_Some:
  "directField name j fs = Some (index, f) \<Longrightarrow>
   \<exists>k. index = [j + k] \<and> k < length fs \<and> Name (fs ! k) = name"
proof (induction fs arbitrary: j)
  case Nil
  then show ?case by simp
next
  case (Cons g fs)
  show ?case
  proof (cases "Name g = name")
    case True
    with Cons.prems show ?thesis by auto
  next
    case False
    with Cons.prems have "directField name (Suc j) fs = Some (index, f)" by simp
    from Cons.IH[OF this] obtain k where "index = [Suc j + k]" "k < length fs" "Name (fs ! k) = name"
      by blast
    then show ?thesis by (intro exI[of _ "Suc k"]) simp
  qed
qed

lemma TypeFieldByName_head:
  assumes "TypeFieldByName t name = Some (index, f)"
  shows "index \<noteq> [] \<and> hd index < NumField t
         \<and> (Name (structFields t ! hd index) = name \<or> Anonymous (structFields t ! hd index))"
proof (cases "directField name 0 (structFields t)")
  case (Some r)
  with assms have "directField name 0 (structFields t) = Some (index, f)"
    by (simp add: TypeFieldByName_def split: if_splits)
  from directField_Some[OF this] show ?thesis by (auto simp: NumField_def)
next
  case None
  with assms have "fieldByNameFunc name (nextLevel [([], structFields t)]) = Some (index, f)"
    by (simp add: TypeFieldByName_def split: if_splits)
  from fieldByNameFunc_head[OF this levelHeads_root] show ?thesis by (simp add: NumField_def)
qed

lemma storeByName_frame:
  assumes "i < NumField t" and "\<not> Anonymous (structFields t ! i)"
    and "Name (structFields t ! i) \<noteq> name"
  shows "\<exists>vs'. storeByName t (VStruct vs) name x = VStruct vs'
              \<and> length vs' = length vs \<and> vs' ! i = vs ! i"
proof (cases "TypeFieldByName t name")
  case None
  then show ?thesis by (simp add: storeByName_def)
next
  case (Some r)
  obtain index f where r: "r = (index, f)" by (cases r)
  from TypeFieldByName_head[OF Some[unfolded r]] assms obtain h rest
    where "index = h # rest" "h \<noteq> i" by (cases index) auto
  then show ?thesis using Some r by (simp add: storeByName_def)
qed

subsection \<open>MapFromSourceMap merges into the destination\<close>

lemma mapSourceMapLoop_merge:
  assumes "Kind D = KStruct" and "distinct (map Name (structFields D))"
    and "i < NumField D" and "\<not> Anonymous (structFields D ! i)"
  shows "distinct (map fst sourceMap) \<Longrightarrow> length dvs = NumField D \<Longrightarrow>
         mapSourceMapLoop sourceMap (Value D (VStruct dvs)) = Inr r \<Longrightarrow>
         \<exists>dvs'. r = Value D (VStruct dvs') \<and> length dvs' = length dvs
           \<and> (case map_of sourceMap (Name (structFields D ! i)) of
                 None \<Rightarrow> dvs' ! i = dvs ! i
               | Some v \<Rightarrow>
                   mapValues \<lparr>useSourceMemberList = True\<rparr> v
                     (Value (FType (structFields D ! i)) (dvs ! i)) = Inr (dvs' ! i))"
proof (induction sourceMap arbitrary: dvs)
  case Nil
  then show ?case by auto
next
  case (Cons kv rest)
  let ?o = "\<lparr>useSourceMemberList = True\<rparr>"
  let ?n = "Name (structFields D ! i)"
  obtain k v where kv: "kv = (k, v)" by (cases kv)
  from Cons.prems(3) kv obtain dfv x where
    look: "FieldByName (Value D (VStruct dvs)) k = Inr dfv"
    and mapped: "mapValues ?o v dfv = Inr x"
    and rest: "mapSourceMapLoop rest (Value D (storeByName D (VStruct dvs) k x)) = Inr r"
    by (auto split: sum.splits)
  from Cons.prems(1) kv have dist: "distinct (map fst rest)" and fresh: "k \<notin> fst ` set rest"
    by auto
  show ?case
  proof (cases "k = ?n")
    case True
    have "k \<noteq> []"
    proof
      assume "k = []"
      with look assms(1) have "dfv = ZeroValue"
        by (simp add: FieldByName_def TypeFieldByName_def)
      with mapped mapValues_ZeroValue_dest[of ?o v] show False by auto
    qed
    with True have ne: "?n \<noteq> []" by simp
    have dfv: "dfv = Value (FType (structFields D ! i)) (dvs ! i)"
      using look FieldByName_direct[OF assms(1,2,3) ne, of "VStruct dvs"] True Cons.prems(2) assms(3)
      by simp
    have st: "storeByName D (VStruct dvs) k x = VStruct (dvs[i := x])"
      using storeByName_direct[OF assms(2,3) ne] True by simp
    have none: "map_of rest ?n = None"
      using fresh True by (simp add: map_of_eq_None_iff)
    from Cons.IH[OF dist _ rest[unfolded st]] Cons.prems(2)
    obtain dvs' where "r = Value D (VStruct dvs')" "length dvs' = length dvs" "dvs' ! i = x"
      using none assms(3) by auto
    then show ?thesis using True kv mapped dfv by auto
  next
    case False
    then have "?n \<noteq> k" by simp
    from storeByName_frame[OF assms(3,4) this, of dvs x]
    obtain dvs1 where st: "storeByName D (VStruct dvs) k x = VStruct dvs1"
      and len: "length dvs1 = length dvs" and same: "dvs1 ! i = dvs ! i" by blast
    from Cons.IH[OF dist _ rest[unfolded st]] len Cons.prems(2)
    obtain dvs' where "r = Value D (VStruct dvs')" "length dvs' = length dvs1"
      "case map_of rest ?n of None \<Rightarrow> dvs' ! i = dvs1 ! i
       | Some v \<Rightarrow> mapValues ?o v (Value (FType (structFields D ! i)) (dvs1 ! i)) = Inr (dvs' ! i)"
      by auto
    then show ?thesis using False kv len same by (auto split: option.splits)
  qed
qed

text \<open>
  C1 (as amended). \<^verbatim>\<open>MapFromSourceMap\<close> into a struct is a merge. Take a destination
  struct (field names distinct) and one of its fields that is not embedded. When the
  call returns, the field holds what \<^verbatim>\<open>mapValues\<close> made of the map's value for the
  field's name and of the field's value before the call, if the name is a key of the
  map; and it holds its value from before the call, if the name is not a key. This is so
  for every order in which the map is iterated. In particular
  \<open>{"Foo": "abc", "Child": {Foo: "456"}}\<close> into
  \<open>{Foo: "", Bar: "123", Child: {Foo: "", Bar: ""}}\<close> gives
  \<open>{Foo: "abc", Bar: "123", Child: {Foo: "456", Bar: ""}}\<close>.
\<close>

theorem MapFromSourceMap_merges:
  assumes "Kind D = KStruct" and "distinct (map Name (structFields D))"
    and "i < NumField D" and "\<not> Anonymous (structFields D ! i)"
    and "distinct (map fst sourceMap)" and "length dvs = NumField D"
    and "MapFromSourceMap sourceMap (Value (TPtr D) (VPtr (Some (VStruct dvs)))) = Inr r"
  shows "(\<exists>dvs'. r = Value D (VStruct dvs') \<and> length dvs' = length dvs
           \<and> (case map_of sourceMap (Name (structFields D ! i)) of
                 None \<Rightarrow> dvs' ! i = dvs ! i
               | Some v \<Rightarrow>
                   mapValues \<lparr>useSourceMemberList = True\<rparr> v
                     (Value (FType (structFields D ! i)) (dvs ! i)) = Inr (dvs' ! i)))
       \<and> MapFromSourceMap
            [(''Foo'', Value TString (VString ''abc'')),
             (''Child'', Value (TNamed ''childSrc'' (TStruct [Field ''Foo'' None False TString]))
                           (VStruct [VString ''456'']))]
            (Value (TPtr (TStruct [Field ''Foo'' None False TString, Field ''Bar'' None False TString,
                       Field ''Child'' None False (TNamed ''childDest''
                         (TStruct [Field ''Foo'' None False TString, Field ''Bar'' None False TString]))]))
               (VPtr (Some (VStruct [VString [], VString ''123'', VStruct [VString [], VString []]]))))
          = Inr (Value (TStruct [Field ''Foo'' None False TString, Field ''Bar'' None False TString,
                       Field ''Child'' None False (TNamed ''childDest''
                         (TStruct [Field ''Foo'' None False TString, Field ''Bar'' None False TString]))])
                   (VStruct [VString ''abc'', VString ''123'', VStruct [VString ''456'', VString []]]))"
proof
  from assms(7) have "mapSourceMapLoop sourceMap (Value D (VStruct dvs)) = Inr r"
    by (simp add: MapFromSourceMap_def)
  from mapSourceMapLoop_merge[OF assms(1-4) assms(5,6) this]
  show "\<exists>dvs'. r = Value D (VStruct dvs') \<and> length dvs' = length dvs
           \<and> (case map_of sourceMap (Name (structFields D ! i)) of
                 None \<Rightarrow> dvs' ! i = dvs ! i
               | Some v \<Rightarrow>
                   mapValues \<lparr>useSourceMemberList = True\<rparr> v
                     (Value (FType (structFields D ! i)) (dvs ! i)) = Inr (dvs' ! i))" .
next
  show "MapFromSourceMap
            [(''Foo'', Value TString (VString ''abc'')),
             (''Child'', Value (TNamed ''childSrc'' (TStruct [Field ''Foo'' None False TString]))
                           (VStruct [VString ''456'']))]
            (Value (TPtr (TStruct [Field ''Foo'' None False TString, Field ''Bar'' None False TString,
                       Field ''Child'' None False (TNamed ''childDest''
                         (TStruct [Field ''Foo'' None False TString, Field ''Bar'' None False TString]))]))
               (VPtr (Some (VStruct [VString [], VString ''123'', VStruct [VString [], VString []]]))))
          = Inr (Value (TStruct [Field ''Foo'' None False TString, Field ''Bar'' None False TString,
                       Field ''Child'' None False (TNamed ''childDest''
                         (TStruct [Field ''Foo'' None False TString, Field ''Bar'' None False TString]))])
                   (VStruct [VString ''abc'', VString ''123'', VStruct [VString ''456'', VString []]]))"
    by code_simp
qed

theorem MapFromSourceMap_merges_witness:
  "\<exists>dvs'. MapFromSourceMap
        [(''Child'', Value (TNamed ''childSrc'' (TStruct [Field ''Foo'' None False TString]))
                           (VStruct [VString ''456''])),
         (''Foo'', Value TString (VString ''abc''))]
        (Value (TPtr (TStruct [Field ''Foo'' None False TString, Field ''Bar'' None False TString,
                       Field ''Child'' None False (TNamed ''childDest''
                         (TStruct [Field ''Foo'' None False TString, Field ''Bar'' None False TString]))]))
               (VPtr (Some (VStruct [VString [], VString ''123'', VStruct [VString [], VString []]]))))
      = Inr (Value (TStruct [Field ''Foo'' None False TString, Field ''Bar'' None False TString,
                       Field ''Child'' None False (TNamed ''childDest''
                         (TStruct [Field ''Foo'' None False TString, Field ''Bar'' None False TString]))])
               (VStruct dvs'))
     \<and> length dvs' = 3 \<and> dvs' ! 1 = VString ''123'' \<and> dvs' ! 0 = VString ''abc''"
proof -
  let ?cs = "TNamed ''childSrc'' (TStruct [Field ''Foo'' None False TString])"
  let ?D = "TStruct [Field ''Foo'' None False TString, Field ''Bar'' None False TString,
                       Field ''Child'' None False (TNamed ''childDest''
                         (TStruct [Field ''Foo'' None False TString, Field ''Bar'' None False TString]))]"
  let ?m = "[(''Child'', Value ?cs (VStruct [VString ''456''])), (''Foo'', Value TString (VString ''abc''))]"
  let ?dvs = "[VString [], VString ''123'', VStruct [VString [], VString []]]"
  let ?r = "Value ?D (VStruct [VString ''abc'', VString ''123'', VStruct [VString ''456'', VString []]])"
  have 1: "Kind ?D = KStruct" by simp
  have 2: "distinct (map Name (structFields ?D))" by simp
  have 3: "1 < NumField ?D" "0 < NumField ?D" by (simp_all add: NumField_def)
  have 4: "\<not> Anonymous (structFields ?D ! 1)" "\<not> Anonymous (structFields ?D ! 0)" by simp_all
  have 5: "distinct (map fst ?m)" by simp
  have 6: "length ?dvs = NumField ?D" by (simp add: NumField_def)
  have 7: "MapFromSourceMap ?m (Value (TPtr ?D) (VPtr (Some (VStruct ?dvs)))) = Inr ?r"
    by code_simp
  have e: "mapValues \<lparr>useSourceMemberList = True\<rparr> (Value TString (VString ''abc''))
      (Value TString (VString [])) = Inr (VString ''abc'')"
    by code_simp
  from MapFromSourceMap_merges[OF 1 2 3(1) 4(1) 5 6 7, THEN conjunct1]
    MapFromSourceMap_merges[OF 1 2 3(2) 4(2) 5 6 7, THEN conjunct1] 7 e
  show ?thesis by auto
qed

text \<open>
  The claim as stated, for every destination field whose name is not a key, fails for an
  embedded struct field: a key that names a field promoted from it is stored inside it.
\<close>

theorem MapFromSourceMap_promoted_key_counterexample:
  "map_of [(''Foo'', Value TInt (VInt 42))] ''DestTypeA'' = None
   \<and> MapFromSourceMap [(''Foo'', Value TInt (VInt 42))]
        (Value (TPtr (TStruct [Field ''DestTypeA'' None True
                  (TNamed ''DestTypeA'' (TStruct [Field ''Foo'' None False TInt,
                                                  Field ''Bar'' None False TString]))]))
           (VPtr (Some (VStruct [VStruct [VInt 0, VString ''123'']]))))
      = Inr (Value (TStruct [Field ''DestTypeA'' None True
                  (TNamed ''DestTypeA'' (TStruct [Field ''Foo'' None False TInt,
                                                  Field ''Bar'' None False TString]))])
               (VStruct [VStruct [VInt 42, VString ''123'']]))
   \<and> VStruct [VInt 42, VString ''123''] \<noteq> VStruct [VInt 0, VString ''123'']"
  by code_simp


section \<open>The second revision: strict and loose mapping\<close>

text \<open>
  \<^verbatim>\<open>automapper.go\<close> also holds the revision that has \<^verbatim>\<open>MapLoose\<close>: its functions
  take the flags \<open>loose\<close> and \<open>useSourceMemberList\<close> instead of the options, a tag only
  skips a field, the name lookup is part of \<^verbatim>\<open>mapDestField\<close>, and
  \<^verbatim>\<open>mapSourceField\<close> hands the destination field of the same name to
  \<^verbatim>\<open>mapDestField\<close>. Their names carry the suffix \<open>_r2\<close> here.
\<close>

record MapOptions =
  UseSourceMemberList :: bool

text \<open>The loop of \<^verbatim>\<open>mapSourceField\<close>: the first destination field, from \<open>q\<close> on, of the name.\<close>

fun matchingDestField :: "string \<Rightarrow> field list \<Rightarrow> nat \<Rightarrow> nat option" where
  "matchingDestField sourceFieldName [] q = None"
| "matchingDestField sourceFieldName (f # fs) q =
     (if sourceFieldName = Name f then Some q else matchingDestField sourceFieldName fs (Suc q))"

function mapValues_r2 :: "Value \<Rightarrow> Value \<Rightarrow> bool \<Rightarrow> bool \<Rightarrow> error + val"
and mapSlice_r2 :: "Value \<Rightarrow> Value \<Rightarrow> bool \<Rightarrow> bool \<Rightarrow> error + val"
and mapSliceLoop_r2 :: "Value \<Rightarrow> gtype \<Rightarrow> nat \<Rightarrow> nat \<Rightarrow> val list \<Rightarrow> bool \<Rightarrow> bool \<Rightarrow> error + val list"
and verifyArrayTypesAreCompatible_r2 :: "Value \<Rightarrow> Value \<Rightarrow> bool \<Rightarrow> bool \<Rightarrow> error + unit"
and mapFields_r2 :: "Value \<Rightarrow> Value \<Rightarrow> bool \<Rightarrow> bool \<Rightarrow> error + val"
and mapSourceFieldsLoop_r2 :: "Value \<Rightarrow> Value \<Rightarrow> nat \<Rightarrow> bool \<Rightarrow> bool \<Rightarrow> error + val"
and mapDestFieldsLoop_r2 :: "Value \<Rightarrow> Value \<Rightarrow> nat \<Rightarrow> bool \<Rightarrow> bool \<Rightarrow> error + val"
and mapDestField_r2 :: "Value \<Rightarrow> Value \<Rightarrow> nat \<Rightarrow> bool \<Rightarrow> bool \<Rightarrow> error + val"
and mapSourceField_r2 :: "Value \<Rightarrow> Value \<Rightarrow> nat \<Rightarrow> bool \<Rightarrow> bool \<Rightarrow> error + val"
where
  "mapValues_r2 sourceVal destVal loose useSML =
     (case sourceVal of
        ZeroValue \<Rightarrow> Inl ReflectZeroValue
      | Value sourceType sv \<Rightarrow>
     (case destVal of
        ZeroValue \<Rightarrow> Inl ReflectZeroValue
      | Value destType dv \<Rightarrow>
          if Kind destType = KStruct \<and> Kind sourceType = KPtr then
            mapValues_r2 (derefOrNew sourceType sv) (Value destType dv) loose useSML
          else if destType = sourceType then Inr sv
          else if Kind destType = KStruct \<and> Kind sourceType = KStruct then
            mapFields_r2 (Value sourceType sv) (Value destType dv) loose useSML
          else if Kind destType = KPtr then
            (if valueIsNil (Value sourceType sv) then Inr dv
             else (case mapValues_r2 (Value sourceType sv)
                          (Value (Elem destType) (zero (Elem destType))) loose useSML of
                     Inl e \<Rightarrow> Inl e
                   | Inr val \<Rightarrow> Inr (VPtr (Some val))))
          else if Kind destType = KSlice then
            mapSlice_r2 (Value sourceType sv) (Value destType dv) loose useSML
          else (case Convert sourceType sv destType of
                  None \<Rightarrow> Inl ReflectNotConvertible
                | Some c \<Rightarrow> Inr c)))"
| "mapSlice_r2 sourceVal destVal loose useSML =
     (case destVal of
        ZeroValue \<Rightarrow> Inl ReflectZeroValue
      | Value destType dv \<Rightarrow>
     (case Len sourceVal of
        Inl e \<Rightarrow> Inl e
      | Inr len \<Rightarrow>
          if Kind destType \<noteq> KSlice then Inl ReflectWrongKind
          else (case mapSliceLoop_r2 sourceVal destType 0 len
                       (replicate len (zero (Elem destType))) loose useSML of
                  Inl e \<Rightarrow> Inl e
                | Inr target \<Rightarrow>
                    if len = 0 then
                      (case verifyArrayTypesAreCompatible_r2 sourceVal (Value destType dv)
                              loose useSML of
                         Inl e \<Rightarrow> Inl e
                       | Inr u \<Rightarrow> Inr (VSlice target))
                    else Inr (VSlice target))))"
| "mapSliceLoop_r2 sourceVal destType j len target loose useSML =
     (if j < len then
        (case Index sourceVal j of
           Inl e \<Rightarrow> Inl e
         | Inr sj \<Rightarrow>
             (case mapValues_r2 sj (Value (Elem destType) (zero (Elem destType))) loose useSML of
                Inl e \<Rightarrow> Inl e
              | Inr val \<Rightarrow>
                  mapSliceLoop_r2 sourceVal destType (Suc j) len (target[j := val]) loose useSML))
      else Inr target)"
| "verifyArrayTypesAreCompatible_r2 sourceVal destVal loose useSML =
     (case destVal of
        ZeroValue \<Rightarrow> Inl ReflectZeroValue
      | Value destType dv \<Rightarrow>
     (case sourceVal of
        ZeroValue \<Rightarrow> Inl ReflectZeroValue
      | Value sourceType sv \<Rightarrow>
          if Kind sourceType \<noteq> KSlice then Inl ReflectWrongKind
          else (case mapValues_r2 (Value sourceType (VSlice [zero (Elem sourceType)]))
                       (Value (TPtr destType) (VPtr None)) loose useSML of
                  Inl e \<Rightarrow> Inl e
                | Inr x \<Rightarrow> Inr ())))"
| "mapFields_r2 sourceVal destVal loose useSML =
     (if useSML then mapSourceFieldsLoop_r2 sourceVal destVal 0 loose useSML
      else mapDestFieldsLoop_r2 sourceVal destVal 0 loose useSML)"
| "mapSourceFieldsLoop_r2 sourceVal destVal i loose useSML =
     (case destVal of
        ZeroValue \<Rightarrow> Inl ReflectZeroValue
      | Value destType dv \<Rightarrow>
          if ValueKind sourceVal \<noteq> KStruct then Inl ReflectWrongKind
          else if i < NumFieldV sourceVal then
            (case mapSourceField_r2 sourceVal (Value destType dv) i loose useSML of
               Inl e \<Rightarrow> Inl e
             | Inr dv' \<Rightarrow> mapSourceFieldsLoop_r2 sourceVal (Value destType dv') (Suc i) loose useSML)
          else Inr dv)"
| "mapDestFieldsLoop_r2 sourceVal destVal i loose useSML =
     (case destVal of
        ZeroValue \<Rightarrow> Inl ReflectZeroValue
      | Value destType dv \<Rightarrow>
          if Kind destType \<noteq> KStruct then Inl ReflectWrongKind
          else if i < NumField destType then
            (case mapDestField_r2 sourceVal (Value destType dv) i loose useSML of
               Inl e \<Rightarrow> Inl e
             | Inr dv' \<Rightarrow> mapDestFieldsLoop_r2 sourceVal (Value destType dv') (Suc i) loose useSML)
          else Inr dv)"
| "mapDestField_r2 source destVal i loose useSML =
     (case destVal of
        ZeroValue \<Rightarrow> Inl ReflectZeroValue
      | Value destType dv \<Rightarrow>
          if \<not> (Kind destType = KStruct \<and> i < NumField destType) then Inl ReflectWrongKind
          else (let destTypeField = structFields destType ! i;
                    fieldName = Name destTypeField
                in recoverField fieldName
                     (if Tag destTypeField = Some ''-'' then Inr dv
                      else
                     (case ValueField (Value destType dv) i of
                        Inl e \<Rightarrow> Inl e
                      | Inr destField \<Rightarrow>
                          if Anonymous destTypeField then
                            (case mapValues_r2 source destField loose useSML of
                               Inl e \<Rightarrow> Inl e
                             | Inr x \<Rightarrow> Inr (setField dv i x))
                          else
                     (case valueIsContainedInNilEmbeddedType source fieldName of
                        Inl e \<Rightarrow> Inl e
                      | Inr nilEmbedded \<Rightarrow>
                          if nilEmbedded then Inr dv
                          else
                     (case FieldByName source fieldName of
                        Inl e \<Rightarrow> Inl e
                      | Inr sourceField \<Rightarrow>
                          if sourceField = ZeroValue then
                            (if loose then Inr dv
                             else if ValueKind destField = KStruct then
                               (case mapValues_r2 source destField loose useSML of
                                  Inl e \<Rightarrow> Inl e
                                | Inr x \<Rightarrow> Inr (setField dv i x))
                             else (case searchNestedFields source fieldName
                                          [0 ..< NumFieldV source] of
                                     Inl e \<Rightarrow> Inl e
                                   | Inr nested \<Rightarrow>
                                       (case mapValues_r2 nested destField loose useSML of
                                          Inl e \<Rightarrow> Inl e
                                        | Inr x \<Rightarrow> Inr (setField dv i x))))
                          else (case mapValues_r2 sourceField destField loose useSML of
                                  Inl e \<Rightarrow> Inl e
                                | Inr x \<Rightarrow> Inr (setField dv i x))))))))"
| "mapSourceField_r2 source destVal i loose useSML =
     (case source of
        ZeroValue \<Rightarrow> Inl ReflectZeroValue
      | Value sourceType sv \<Rightarrow>
          if \<not> (Kind sourceType = KStruct \<and> i < NumField sourceType) then Inl ReflectWrongKind
          else (let fieldName = Name (structFields sourceType ! i)
                in recoverField fieldName
                     (case destVal of
                        ZeroValue \<Rightarrow> Inl ReflectZeroValue
                      | Value destType dv \<Rightarrow>
                          if Kind destType \<noteq> KStruct then Inl ReflectWrongKind
                          else (case matchingDestField fieldName (structFields destType) 0 of
                                  Some q \<Rightarrow>
                                    mapDestField_r2 (Value sourceType sv) (Value destType dv) q
                                      loose useSML
                                | None \<Rightarrow> Inl NoMatchingDestField))))"
  by pat_completeness auto
termination
proof (relation "inv_image (less_than <*lex*> less_than <*lex*> less_than)
    (case_sum
      (case_sum
        (case_sum (\<lambda>(s, d, l, u). (m1 s d, m2 s d 6, 0))
                  (\<lambda>(s, d, l, u). (m1 s d, m2 s d 5, 0)))
        (case_sum (\<lambda>(s, t, j, len, target, l, u). (psizeV s + Suc (psize (Elem t)), 0, len - j))
                  (\<lambda>(s, d, l, u). (m1 s d, 10 * (sizeV s + sizeV d) + 23, 0))))
      (case_sum
        (case_sum (\<lambda>(s, d, l, u). (m1 s d, m2 s d 5, 0))
                  (\<lambda>(s, d, i, l, u). (m1 s d, m2 s d 4, m3 s d i)))
        (case_sum (\<lambda>(s, d, i, l, u). (m1 s d, m2 s d 4, m3 s d i))
          (case_sum (\<lambda>(s, d, i, l, u). (m1 s d, m2 s d 2, 0))
                    (\<lambda>(s, d, i, l, u). (m1 s d, m2 s d 3, 0))))))",
    goal_cases)
  case 1
  show ?case by (intro wf_inv_image wf_lex_prod wf_less_than)
next
  case 2
  then show ?case
    by (simp add: m1_def m2_def psizeV_derefOrNew sizeV_derefOrNew psize_Elem_ptr size_Elem
                  sliceUnderPtrs_struct)
next
  case 3
  then show ?case by (simp add: m1_def m2_def)
next
  case 4
  then show ?case
    by (simp add: m1_def m2_def psize_Elem_ptr size_Elem sliceUnderPtrs_Elem_ptr)
next
  case 5
  then show ?case by (simp add: m1_def m2_def)
next
  case 6
  then show ?case by (simp add: m1_def m2_def psize_slice)
next
  case 7
  then show ?case by (simp add: m1_def m2_def emptySeq_Len sliceUnderPtrs_slice)
next
  case 8
  then show ?case using psizeV_Index by (fastforce simp: m1_def)
next
  case 9
  then show ?case by simp
next
  case 10
  then show ?case by (simp add: m1_def m2_def)
next
  case 11
  then show ?case by (simp add: m1_def m2_def)
next
  case 12
  then show ?case by (simp add: m1_def m2_def)
next
  case 13
  then show ?case by (simp add: m1_def m2_def)
next
  case 14
  then show ?case by (simp add: m1_def m2_def m3_def)
next
  case 15
  then show ?case by (simp add: m1_def m2_def)
next
  case 16
  then show ?case by (simp add: m1_def m2_def m3_def)
next
  case 17
  then show ?case by (auto simp: m1_def simp del: ValueField.simps dest!: psizeV_ValueField)
next
  case 18
  then show ?case by (auto simp: m1_def simp del: ValueField.simps dest!: psizeV_ValueField)
next
  case 19
  then show ?case
    by (auto simp: m1_def simp del: ValueField.simps dest!: psizeV_ValueField psizeV_searchNestedFields)
next
  case 20
  then show ?case by (auto simp: m1_def simp del: ValueField.simps dest!: psizeV_ValueField psizeV_FieldByName)
next
  case 21
  then show ?case by (simp add: m1_def m2_def)
qed

declare mapValues_r2.simps [simp del] mapSlice_r2.simps [simp del] mapSliceLoop_r2.simps [simp del]
  verifyArrayTypesAreCompatible_r2.simps [simp del] mapFields_r2.simps [simp del]
  mapSourceFieldsLoop_r2.simps [simp del] mapDestFieldsLoop_r2.simps [simp del]
  mapDestField_r2.simps [simp del] mapSourceField_r2.simps [simp del]

definition MapWithOptions :: "Value \<Rightarrow> Value \<Rightarrow> MapOptions \<Rightarrow> error + val" where
  "MapWithOptions source dest opt =
     (case dest of
        ZeroValue \<Rightarrow> Inl NilDereference
      | Value destType p \<Rightarrow>
          if Kind destType \<noteq> KPtr then Inl DestMustBePointer
          else mapValues_r2 source (ValueElem dest) False (UseSourceMemberList opt))"

definition Map_r2 :: "Value \<Rightarrow> Value \<Rightarrow> error + val" where
  "Map_r2 source dest = MapWithOptions source dest \<lparr>UseSourceMemberList = False\<rparr>"

definition MapLooseWithOptions :: "Value \<Rightarrow> Value \<Rightarrow> MapOptions \<Rightarrow> error + val" where
  "MapLooseWithOptions source dest opt =
     (case dest of
        ZeroValue \<Rightarrow> Inl NilDereference
      | Value destType p \<Rightarrow>
          if Kind destType \<noteq> KPtr then Inl DestMustBePointer
          else mapValues_r2 source (ValueElem dest) True (UseSourceMemberList opt))"

definition MapLoose :: "Value \<Rightarrow> Value \<Rightarrow> error + val" where
  "MapLoose source dest = MapLooseWithOptions source dest \<lparr>UseSourceMemberList = False\<rparr>"

subsection \<open>Loose mode and the fallback steps\<close>

text \<open>
  In \<^verbatim>\<open>mapDestField\<close> of this revision the test \<^verbatim>\<open>if loose { return }\<close> stands
  directly after the lookup of the field's name on the source: whenever that lookup
  finds nothing, a loose call leaves the destination as it is, whether or not one of the
  two fallback steps would have found a value.
\<close>

lemma mapDestField_r2_loose_returns:
  assumes "Kind destType = KStruct" and "i < NumField destType"
    and "Tag (structFields destType ! i) \<noteq> Some ''-''"
    and "\<not> Anonymous (structFields destType ! i)"
    and "valueIsContainedInNilEmbeddedType source (Name (structFields destType ! i)) = Inr False"
    and "FieldByName source (Name (structFields destType ! i)) = Inr ZeroValue"
  shows "mapDestField_r2 source (Value destType dv) i True useSML = Inr dv"
  using assms by (simp add: mapDestField_r2.simps Let_def)

text \<open>
  C9. A destination field that cannot be resolved at all is left untouched by
  \<^verbatim>\<open>MapLoose\<close> where \<^verbatim>\<open>Map\<close> panics: \<open>source{A}\<close> into \<open>dest{A, B}\<close>. But a field
  that the nested-aggregate fallback does resolve is not mapped identically in both
  modes: from \<open>source{Child: {Foo, Bar: "Bar"}}\<close> into \<open>dest{Foo, Bar}\<close>, \<^verbatim>\<open>Map\<close>
  finds \<open>Bar\<close> inside \<open>Child\<close> and sets it, while \<^verbatim>\<open>MapLoose\<close> returns without an
  error and leaves \<open>Bar\<close> empty. The same holds for the fallback onto a destination
  struct: \<^verbatim>\<open>Map\<close> fills \<open>dest{Child: {Bar}}\<close> from \<open>source{Bar: "Bar"}\<close>,
  \<^verbatim>\<open>MapLoose\<close> leaves it as it is.
\<close>

theorem MapLoose_skips_fallback_steps:
  "Map_r2
      (Value (TPtr (TStruct [Field ''A'' None False TString])) (VPtr (Some (VStruct [VString ''a'']))))
      (Value (TPtr (TStruct [Field ''A'' None False TString, Field ''B'' None False TString]))
         (VPtr (Some (VStruct [VString [], VString ''keep'']))))
     = Inl (ErrorMappingField ''B'' ReflectZeroValue)
   \<and> MapLoose
      (Value (TPtr (TStruct [Field ''A'' None False TString])) (VPtr (Some (VStruct [VString ''a'']))))
      (Value (TPtr (TStruct [Field ''A'' None False TString, Field ''B'' None False TString]))
         (VPtr (Some (VStruct [VString [], VString ''keep'']))))
     = Inr (VStruct [VString ''a'', VString ''keep''])
   \<and> Map_r2
      (Value (TPtr (TStruct [Field ''Child'' None False
            (TNamed ''DestTypeA'' (TStruct [Field ''Foo'' None False TInt, Field ''Bar'' None False TString]))]))
         (VPtr (Some (VStruct [VStruct [VInt 0, VString ''Bar'']]))))
      (Value (TPtr (TNamed ''SourceTypeA'' (TStruct [Field ''Foo'' None False TInt, Field ''Bar'' None False TString])))
         (VPtr (Some (VStruct [VInt 0, VString []]))))
     = Inr (VStruct [VInt 0, VString ''Bar''])
   \<and> MapLoose
      (Value (TPtr (TStruct [Field ''Child'' None False
            (TNamed ''DestTypeA'' (TStruct [Field ''Foo'' None False TInt, Field ''Bar'' None False TString]))]))
         (VPtr (Some (VStruct [VStruct [VInt 0, VString ''Bar'']]))))
      (Value (TPtr (TNamed ''SourceTypeA'' (TStruct [Field ''Foo'' None False TInt, Field ''Bar'' None False TString])))
         (VPtr (Some (VStruct [VInt 0, VString []]))))
     = Inr (VStruct [VInt 0, VString []])
   \<and> Map_r2
      (Value (TPtr (TNamed ''SourceTypeA'' (TStruct [Field ''Foo'' None False TInt, Field ''Bar'' None False TString])))
         (VPtr (Some (VStruct [VInt 0, VString ''Bar'']))))
      (Value (TPtr (TStruct [Field ''Child'' None False
            (TNamed ''DestTypeA'' (TStruct [Field ''Foo'' None False TInt, Field ''Bar'' None False TString]))]))
         (VPtr (Some (VStruct [VStruct [VInt 0, VString []]]))))
     = Inr (VStruct [VStruct [VInt 0, VString ''Bar'']])
   \<and> MapLoose
      (Value (TPtr (TNamed ''SourceTypeA'' (TStruct [Field ''Foo'' None False TInt, Field ''Bar'' None False TString])))
         (VPtr (Some (VStruct [VInt 0, VString ''Bar'']))))
      (Value (TPtr (TStruct [Field ''Child'' None False
            (TNamed ''DestTypeA'' (TStruct [Field ''Foo'' None False TInt, Field ''Bar'' None False TString]))]))
         (VPtr (Some (VStruct [VStruct [VInt 0, VString []]]))))
     = Inr (VStruct [VStruct [VInt 0, VString []]])"
  by code_simp

end
